theory Spec2Isabelle
  imports Complex_Main "HOL-Library.Word" "HOL-Library.Sublist" "HOL-Library.Multiset"
begin

text \<open>
  A model of the Node.js server of \<open>server.js\<close> and of the product store it imports
  (\<open>models/product.model.js\<close>): the JavaScript values the two files compute with, the
  five store functions, the request handler with its routes, and the properties of the
  specification that concern them.
\<close>

section \<open>JavaScript values\<close>

subsection \<open>Strings\<close>

text \<open>
  A JavaScript string is a sequence of UTF-16 code units; \<open>length\<close>, \<open>split('')\<close> and
  \<open>===\<close> all work on code units. String literals of the source are ASCII and are
  written \<open>js ''...''\<close>.
\<close>

type_synonym code_unit = "16 word"
type_synonym jsstring = "code_unit list"

definition js :: "string \<Rightarrow> jsstring" where
  "js s = map of_char s"

definition is_ascii :: "code_unit \<Rightarrow> bool" where
  "is_ascii c = (c < 0x80)"

definition ascii_upper :: "code_unit \<Rightarrow> code_unit" where
  "ascii_upper c = (if 0x61 \<le> c \<and> c \<le> 0x7A then c - 0x20 else c)"

definition ascii_lower :: "code_unit \<Rightarrow> code_unit" where
  "ascii_lower c = (if 0x41 \<le> c \<and> c \<le> 0x5A then c + 0x20 else c)"

text \<open>
  \<open>String.prototype.toUpperCase\<close> and \<open>toLowerCase\<close> follow the Unicode case tables.
  On a string of ASCII code units they change exactly the letters a-z (A-Z). The tables for
  the rest of Unicode are not part of this program: they are the parameter \<open>unicode\<close>,
  consulted only for a string that holds a non-ASCII code unit.
\<close>

definition toUpperCase :: "(jsstring \<Rightarrow> jsstring) \<Rightarrow> jsstring \<Rightarrow> jsstring" where
  "toUpperCase unicode s = (if list_all is_ascii s then map ascii_upper s else unicode s)"

definition toLowerCase :: "(jsstring \<Rightarrow> jsstring) \<Rightarrow> jsstring \<Rightarrow> jsstring" where
  "toLowerCase unicode s = (if list_all is_ascii s then map ascii_lower s else unicode s)"

text \<open>\<open>s.split(sep)\<close> for a separator of one code unit.\<close>

fun split_on :: "code_unit \<Rightarrow> jsstring \<Rightarrow> jsstring list" where
  "split_on sep [] = [[]]"
| "split_on sep (c # cs) =
     (if c = sep then [] # split_on sep cs
      else (case split_on sep cs of
              [] \<Rightarrow> [[c]]
            | p # ps \<Rightarrow> (c # p) # ps))"

text \<open>\<open>s.replace(pat, rep)\<close> for a string pattern: the first occurrence only.\<close>

fun replace_first :: "jsstring \<Rightarrow> jsstring \<Rightarrow> jsstring \<Rightarrow> jsstring" where
  "replace_first pat rep [] = (if pat = [] then rep else [])"
| "replace_first pat rep (c # cs) =
     (if prefix pat (c # cs) then rep @ drop (length pat) (c # cs)
      else c # replace_first pat rep cs)"

subsection \<open>Numbers\<close>

text \<open>
  A JavaScript number is an IEEE 754 binary64 value. The finite ones are rationals;
  \<open>-0\<close> is identified with \<open>0\<close> (they are \<open>===\<close>, and \<open>Number.isInteger\<close> holds of
  both).
\<close>

datatype jsnum = NaN | PosInf | NegInf | Fin rat

fun negate :: "jsnum \<Rightarrow> jsnum" where
  "negate NaN = NaN"
| "negate PosInf = NegInf"
| "negate NegInf = PosInf"
| "negate (Fin q) = Fin (- q)"

fun isInteger :: "jsnum \<Rightarrow> bool" where
  "isInteger (Fin q) = (of_int \<lfloor>q\<rfloor> = q)"
| "isInteger _ = False"

definition pow2 :: "int \<Rightarrow> rat" where
  "pow2 e = (if 0 \<le> e then 2 ^ nat e else 1 / 2 ^ nat (- e))"

definition pow10 :: "int \<Rightarrow> rat" where
  "pow10 e = (if 0 \<le> e then 10 ^ nat e else 1 / 10 ^ nat (- e))"

text \<open>The number of binary digits of a positive integer.\<close>

function bits :: "int \<Rightarrow> nat" where
  "bits n = (if n \<le> 0 then 0 else Suc (bits (n div 2)))"
  by pat_completeness auto
termination
  by (relation "measure nat") auto

declare bits.simps [simp del]

text \<open>The binary exponent of a positive rational: \<open>2 ^ e \<le> q < 2 ^ (e + 1)\<close>.\<close>

definition ilog2 :: "rat \<Rightarrow> int" where
  "ilog2 q =
     (let (a, b) = quotient_of q;
          d = int (bits a) - int (bits b)
      in if pow2 d \<le> q then d else d - 1)"

definition round_half_even :: "rat \<Rightarrow> int" where
  "round_half_even q =
     (let f = \<lfloor>q\<rfloor>; r = q - of_int f
      in if r < 1 / 2 then f
         else if 1 / 2 < r then f + 1
         else if even f then f else f + 1)"

text \<open>
  Rounding of a real value to binary64, to nearest, ties to even: 53 significant bits,
  least exponent -1022 (below it the subnormals share the spacing \<open>2 ^ -1074\<close>), and
  overflow to infinity from \<open>2 ^ 1024\<close>.
\<close>

definition round_double :: "rat \<Rightarrow> jsnum" where
  "round_double q =
     (if q = 0 then Fin 0
      else
        let a = \<bar>q\<bar>;
            e = max (ilog2 a) (- 1022);
            ulp = pow2 (e - 52);
            r = of_int (round_half_even (a / ulp)) * ulp
        in if pow2 1024 \<le> r then (if 0 < q then PosInf else NegInf)
           else Fin (if 0 < q then r else - r))"

text \<open>
  \<open>Number(s)\<close> on a string: the StringToNumber grammar of ECMAScript. White space and
  line terminators are trimmed; the empty string is 0; then a hexadecimal, octal or binary
  integer literal, or an optionally signed decimal literal (\<open>Infinity\<close>, digits with an
  optional fraction and exponent); anything else is NaN.
\<close>

definition is_white :: "code_unit \<Rightarrow> bool" where
  "is_white c =
     (c \<in> set [0x9, 0xA, 0xB, 0xC, 0xD, 0x20, 0xA0, 0x1680, 0x2028, 0x2029, 0x202F,
                0x205F, 0x3000, 0xFEFF]
      \<or> (0x2000 \<le> c \<and> c \<le> 0x200A))"

definition trim :: "jsstring \<Rightarrow> jsstring" where
  "trim s = rev (dropWhile is_white (rev (dropWhile is_white s)))"

definition digit_of :: "code_unit \<Rightarrow> nat option" where
  "digit_of c =
     (if 0x30 \<le> c \<and> c \<le> 0x39 then Some (unat c - 48)
      else if 0x61 \<le> c \<and> c \<le> 0x66 then Some (unat c - 87)
      else if 0x41 \<le> c \<and> c \<le> 0x46 then Some (unat c - 55)
      else None)"

definition is_digit_in :: "nat \<Rightarrow> code_unit \<Rightarrow> bool" where
  "is_digit_in b c = (case digit_of c of Some d \<Rightarrow> d < b | None \<Rightarrow> False)"

definition digits_value :: "nat \<Rightarrow> jsstring \<Rightarrow> int" where
  "digits_value b s =
     foldl (\<lambda>acc c. case digit_of c of Some d \<Rightarrow> acc * int b + int d | None \<Rightarrow> acc) 0 s"

definition radix_literal :: "nat \<Rightarrow> jsstring \<Rightarrow> jsnum" where
  "radix_literal b ds =
     (if ds \<noteq> [] \<and> list_all (is_digit_in b) ds
      then round_double (of_int (digits_value b ds)) else NaN)"

definition exponent_part :: "jsstring \<Rightarrow> int option" where
  "exponent_part s =
     (case s of
        [] \<Rightarrow> Some 0
      | c # t \<Rightarrow>
          if c = 0x65 \<or> c = 0x45 then
            (let (sgn, ds) =
                   (case t of
                      [] \<Rightarrow> (1, [])
                    | d # u \<Rightarrow> if d = 0x2B then (1, u)
                               else if d = 0x2D then (- 1, u) else (1, t))
             in if ds \<noteq> [] \<and> list_all (is_digit_in 10) ds
                then Some (sgn * digits_value 10 ds) else None)
          else None)"

definition unsigned_decimal :: "jsstring \<Rightarrow> jsnum" where
  "unsigned_decimal s =
     (if s = js ''Infinity'' then PosInf
      else
        let ip = takeWhile (is_digit_in 10) s;
            r1 = dropWhile (is_digit_in 10) s;
            has_dot = (case r1 of [] \<Rightarrow> False | c # _ \<Rightarrow> c = 0x2E);
            fp = (if has_dot then takeWhile (is_digit_in 10) (tl r1) else []);
            r2 = (if has_dot then dropWhile (is_digit_in 10) (tl r1) else r1)
        in if ip = [] \<and> fp = [] then NaN
           else (case exponent_part r2 of
                   None \<Rightarrow> NaN
                 | Some ex \<Rightarrow>
                     round_double
                       ((of_int (digits_value 10 ip)
                         + of_int (digits_value 10 fp) / 10 ^ length fp) * pow10 ex)))"

definition StringToNumber :: "jsstring \<Rightarrow> jsnum" where
  "StringToNumber str =
     (case trim str of
        [] \<Rightarrow> Fin 0
      | c # t \<Rightarrow>
          (case t of
             [] \<Rightarrow> unsigned_decimal [c]
           | p # ds \<Rightarrow>
               if c = 0x30 \<and> (p = 0x78 \<or> p = 0x58) then radix_literal 16 ds
               else if c = 0x30 \<and> (p = 0x6F \<or> p = 0x4F) then radix_literal 8 ds
               else if c = 0x30 \<and> (p = 0x62 \<or> p = 0x42) then radix_literal 2 ds
               else if c = 0x2B then unsigned_decimal t
               else if c = 0x2D then negate (unsigned_decimal t)
               else unsigned_decimal (c # t)))"

text \<open>\<open>Number(v)\<close> as the router calls it: on a string, or on \<open>undefined\<close> (no such segment).\<close>

definition Number :: "jsstring option \<Rightarrow> jsnum" where
  "Number v = (case v of None \<Rightarrow> NaN | Some s \<Rightarrow> StringToNumber s)"

subsection \<open>Values, property reads and writes\<close>

text \<open>
  The values that \<open>JSON.parse\<close> and the query parser produce, and \<open>undefined\<close>. An object
  is the list of its own properties, in insertion order.
\<close>

datatype jsval =
    Undefined
  | Null
  | Bool bool
  | Num jsnum
  | Str jsstring
  | Arr "jsval list"
  | Obj "(jsstring \<times> jsval) list"

text \<open>
  The exceptions the program can throw: a TypeError from a property access, a SyntaxError
  from \<open>JSON.parse\<close>, and \<open>ERR_HTTP_HEADERS_SENT\<close> from a second \<open>writeHead\<close>.
\<close>

datatype error = TypeError | SyntaxError | HeadersSent

text \<open>
  \<open>v.k\<close>: reading a property of \<open>undefined\<close> or \<open>null\<close> throws a TypeError. The program
  reads only \<open>id\<close>, \<open>title\<close>, \<open>sku\<close>, \<open>price\<close> and \<open>input\<close>, which no built-in
  prototype defines, so on a primitive or an array the read gives \<open>undefined\<close>, and on an
  object the own property if there is one.
\<close>

fun get_prop :: "jsval \<Rightarrow> jsstring \<Rightarrow> error + jsval" where
  "get_prop Undefined k = Inl TypeError"
| "get_prop Null k = Inl TypeError"
| "get_prop (Obj kvs) k = Inr (case map_of kvs k of Some v \<Rightarrow> v | None \<Rightarrow> Undefined)"
| "get_prop v k = Inr Undefined"

fun set_own :: "jsstring \<Rightarrow> jsval \<Rightarrow> (jsstring \<times> jsval) list \<Rightarrow> (jsstring \<times> jsval) list" where
  "set_own k v [] = [(k, v)]"
| "set_own k v (p # ps) = (if fst p = k then (k, v) # ps else p # set_own k v ps)"

text \<open>
  \<open>o.k = v\<close> in strict mode (the file is an ES module): throws a TypeError unless \<open>o\<close> is
  an object. An array would take the property too; the model of arrays has no named
  properties, and \<open>update\<close> never assigns to one (lemma \<open>has_id_Obj\<close>).
\<close>

fun set_prop :: "jsval \<Rightarrow> jsstring \<Rightarrow> jsval \<Rightarrow> error + jsval" where
  "set_prop (Obj kvs) k v = Inr (Obj (set_own k v kvs))"
| "set_prop _ k v = Inl TypeError"

fun truthy :: "jsval \<Rightarrow> bool" where
  "truthy Undefined = False"
| "truthy Null = False"
| "truthy (Bool b) = b"
| "truthy (Num n) = (n \<noteq> NaN \<and> n \<noteq> Fin 0)"
| "truthy (Str s) = (s \<noteq> [])"
| "truthy (Arr _) = True"
| "truthy (Obj _) = True"

definition nullish :: "jsval \<Rightarrow> bool" where
  "nullish v = (v = Undefined \<or> v = Null)"

text \<open>
  \<open>a === b\<close>. Objects and arrays are compared by reference; the program only ever compares
  with a number, so two compound values never reach a comparison that holds.
\<close>

fun strict_eq :: "jsval \<Rightarrow> jsval \<Rightarrow> bool" where
  "strict_eq Undefined Undefined = True"
| "strict_eq Null Null = True"
| "strict_eq (Bool a) (Bool b) = (a = b)"
| "strict_eq (Num a) (Num b) = (a \<noteq> NaN \<and> a = b)"
| "strict_eq (Str a) (Str b) = (a = b)"
| "strict_eq _ _ = False"

text \<open>
  \<open>Array.prototype.find\<close> and \<open>findIndex\<close> with a callback that may throw: the elements
  are tried in order, and the first exception ends the search.
\<close>

fun find_js :: "(jsval \<Rightarrow> error + bool) \<Rightarrow> jsval list \<Rightarrow> error + jsval" where
  "find_js P [] = Inr Undefined"
| "find_js P (x # xs) =
     (case P x of
        Inl e \<Rightarrow> Inl e
      | Inr b \<Rightarrow> if b then Inr x else find_js P xs)"

fun findIndex_from :: "int \<Rightarrow> (jsval \<Rightarrow> error + bool) \<Rightarrow> jsval list \<Rightarrow> error + int" where
  "findIndex_from k P [] = Inr (- 1)"
| "findIndex_from k P (x # xs) =
     (case P x of
        Inl e \<Rightarrow> Inl e
      | Inr b \<Rightarrow> if b then Inr k else findIndex_from (k + 1) P xs)"

definition findIndex :: "(jsval \<Rightarrow> error + bool) \<Rightarrow> jsval list \<Rightarrow> error + int" where
  "findIndex P xs = findIndex_from 0 P xs"

text \<open>\<open>xs.splice(i, 1)\<close>: the element at index \<open>i\<close> is taken out.\<close>

definition splice1 :: "'a list \<Rightarrow> nat \<Rightarrow> 'a list" where
  "splice1 xs i = take i xs @ drop (Suc i) xs"

section \<open>The product model\<close>

text \<open>
  The module keeps one array \<open>products\<close>; every function below takes its current
  contents and, when it mutates the array, returns the new contents. An \<open>Inl\<close> result is
  an exception that leaves the function. The router passes ids that come out of
  \<open>Number(...)\<close>, so an id is a number. The functions \<open>all\<close> and \<open>remove\<close> of the module
  are \<open>all_products\<close> and \<open>remove_product\<close> here.
\<close>

definition product :: "int \<Rightarrow> string \<Rightarrow> string \<Rightarrow> int \<Rightarrow> jsval" where
  "product i t s p =
     Obj [(js ''id'', Num (Fin (of_int i))), (js ''title'', Str (js t)),
          (js ''sku'', Str (js s)), (js ''price'', Num (Fin (of_int p)))]"

definition initial_products :: "jsval list" where
  "initial_products =
     [product 1001 ''T-Shirt'' ''ABC-1001'' 49900,
      product 1002 ''Cap'' ''ABC-1002'' 19900,
      product 1003 ''Jeans'' ''ABC-1003'' 99900]"

definition all_products :: "jsval list \<Rightarrow> jsval list" where
  "all_products products = products"

text \<open>The callback \<open>product => product.id === id\<close>.\<close>

definition has_id :: "jsnum \<Rightarrow> jsval \<Rightarrow> error + bool" where
  "has_id i p =
     (case get_prop p (js ''id'') of
        Inl e \<Rightarrow> Inl e
      | Inr v \<Rightarrow> Inr (strict_eq v (Num i)))"

definition getById :: "jsval list \<Rightarrow> jsnum \<Rightarrow> error + jsval" where
  "getById products i = find_js (has_id i) products"

definition add :: "jsval list \<Rightarrow> jsval \<Rightarrow> jsval list" where
  "add products p = products @ [p]"

definition remove_product :: "jsval list \<Rightarrow> jsnum \<Rightarrow> error + (bool \<times> jsval list)" where
  "remove_product products i =
     (case findIndex (has_id i) products of
        Inl e \<Rightarrow> Inl e
      | Inr targetIndex \<Rightarrow>
          if targetIndex = - 1 then Inr (False, products)
          else Inr (True, splice1 products (nat targetIndex)))"

text \<open>One line of \<open>update\<close>: \<open>target.k = data.k ?? target.k\<close>.\<close>

definition assign_field :: "jsval \<Rightarrow> jsstring \<Rightarrow> jsval \<Rightarrow> error + jsval" where
  "assign_field data k target =
     (case get_prop data k of
        Inl e \<Rightarrow> Inl e
      | Inr d \<Rightarrow>
          (case (if nullish d then get_prop target k else Inr d) of
             Inl e \<Rightarrow> Inl e
           | Inr v \<Rightarrow> set_prop target k v))"

definition update :: "jsval list \<Rightarrow> jsnum \<Rightarrow> jsval \<Rightarrow> error + (bool \<times> jsval list)" where
  "update products i data =
     (case findIndex (has_id i) products of
        Inl e \<Rightarrow> Inl e
      | Inr targetIndex \<Rightarrow>
          if targetIndex = - 1 then Inr (False, products)
          else
            (case assign_field data (js ''title'') (products ! nat targetIndex) of
               Inl e \<Rightarrow> Inl e
             | Inr p1 \<Rightarrow>
                 (case assign_field data (js ''sku'') p1 of
                    Inl e \<Rightarrow> Inl e
                  | Inr p2 \<Rightarrow>
                      (case assign_field data (js ''price'') p2 of
                         Inl e \<Rightarrow> Inl e
                       | Inr p3 \<Rightarrow> Inr (True, products[nat targetIndex := p3])))))"

section \<open>The server\<close>

subsection \<open>Requests, responses and the environment\<close>

text \<open>
  A request as the handler sees it: the method, the path and the query object that
  \<open>url.parse(req.url, true)\<close> gives, and what \<open>JSON.parse\<close> makes of the buffered body
  (\<open>None\<close> when it throws a SyntaxError). The path is the raw one, not percent-decoded.
\<close>

record request =
  req_method :: jsstring
  pathname :: jsstring
  query :: jsval
  json_body :: "jsval option"

text \<open>
  A response: the status code, the Content-Type header and the body. \<open>Json v\<close> is the
  text \<open>JSON.stringify(v)\<close>; \<open>FileStream p\<close> is the contents of the file \<open>p\<close>, piped.
\<close>

datatype body = Text jsstring | Json jsval | FileStream jsstring

record response =
  statusCode :: nat
  contentType :: jsstring
  body :: body

text \<open>
  What the handler takes from outside the program: the directory of the script, the
  library function \<open>path.join\<close>, the file system and the Unicode case tables beyond
  ASCII. Of the file system it asks whether a path exists (\<open>fs.existsSync\<close>), and
  \<open>readStream_ok p\<close> says that the stream of \<open>fs.createReadStream(p)\<close> delivers the
  file to its end without an \<open>error\<close> event (it does not for a directory, or for a file
  that may not be read).
\<close>

record env =
  dirname :: jsstring
  path_join :: "jsstring list \<Rightarrow> jsstring"
  existsSync :: "jsstring \<Rightarrow> bool"
  readStream_ok :: "jsstring \<Rightarrow> bool"
  unicode_upper :: "jsstring \<Rightarrow> jsstring"
  unicode_lower :: "jsstring \<Rightarrow> jsstring"

definition textResponse :: "nat \<Rightarrow> jsstring \<Rightarrow> response" where
  "textResponse code data =
     \<lparr>statusCode = code, contentType = js ''text/plain'', body = Text data\<rparr>"

definition htmlResponse :: "nat \<Rightarrow> jsstring \<Rightarrow> response" where
  "htmlResponse code data =
     \<lparr>statusCode = code, contentType = js ''text/html'', body = Text data\<rparr>"

definition jsonResponse :: "nat \<Rightarrow> jsval \<Rightarrow> response" where
  "jsonResponse code data =
     \<lparr>statusCode = code, contentType = js ''application/json'', body = Json data\<rparr>"

definition notFoundResponse :: response where
  "notFoundResponse = htmlResponse 404 (js ''<h1>404 | Not Found</h1>'')"

subsection \<open>Static files\<close>

text \<open>
  \<open>path.extname\<close> (POSIX): trailing slashes are ignored, the last component is taken, and
  the extension runs from its last dot to its end; it is empty when the component has no
  dot, when its only dot comes first, and for the component \<open>..\<close>.
\<close>

definition extname :: "jsstring \<Rightarrow> jsstring" where
  "extname path =
     (let stripped = rev (dropWhile (\<lambda>c. c = 0x2F) (rev path));
          base = rev (takeWhile (\<lambda>c. c \<noteq> 0x2F) (rev stripped));
          stem = rev (dropWhile (\<lambda>c. c \<noteq> 0x2E) (rev base));
          ext = 0x2E # rev (takeWhile (\<lambda>c. c \<noteq> 0x2E) (rev base))
      in if 0x2E \<notin> set base \<or> length stem = 1 \<or> base = js ''..'' then [] else ext)"

text \<open>The \<open>switch (ext)\<close> of \<open>staticFileResponse\<close>.\<close>

definition contentType_of :: "jsstring \<Rightarrow> jsstring" where
  "contentType_of ext =
     (if ext = js ''.html'' then js ''text/html''
      else if ext = js ''.jpg'' \<or> ext = js ''.jpeg'' then js ''image/jpeg''
      else if ext = js ''.png'' then js ''image/png''
      else if ext = js ''.css'' then js ''text/css''
      else if ext = js ''.js'' then js ''application/javascript''
      else if ext = js ''.pdf'' then js ''application/pdf''
      else if ext = js ''.csv'' then js ''text/csv''
      else if ext = js ''.txt'' then js ''text/plain''
      else js ''application/octet-stream'')"

text \<open>
  The response sent for a file: 404 when it does not exist; else \<open>writeHead(200, ...)\<close>
  with the content type of its extension runs and the stream is piped. When the stream
  emits \<open>error\<close>, its handler calls \<open>res.writeHead(500, ...)\<close> after the first
  \<open>writeHead\<close> has run: that call throws \<open>ERR_HTTP_HEADERS_SENT\<close>, nothing catches it,
  and no response is completed.
\<close>

definition staticFileResponse :: "env \<Rightarrow> jsstring \<Rightarrow> error + response" where
  "staticFileResponse e filePath =
     (if \<not> existsSync e filePath then Inr notFoundResponse
      else
        let ext = toLowerCase (unicode_lower e) (extname filePath);
            contentType = contentType_of ext
        in if readStream_ok e filePath
           then Inr \<lparr>statusCode = 200, contentType = contentType, body = FileStream filePath\<rparr>
           else Inl HeadersSent)"

subsection \<open>The request handler\<close>

definition html_line :: "nat \<Rightarrow> jsstring \<Rightarrow> jsstring" where
  "html_line indent s = replicate indent 0x20 @ s @ [0x0A]"

definition nav_item :: "string \<Rightarrow> string \<Rightarrow> jsstring" where
  "nav_item href label =
     html_line 20 (js ''<li>'')
     @ html_line 24 (js ''<a href='' @ [0x22] @ js href @ [0x22] @ js ''>'' @ js label @ js ''</a>'')
     @ html_line 20 (js ''</li>'')"

definition homePageHtml :: jsstring where
  "homePageHtml =
     [0x0A]
     @ html_line 12 (js ''<h1>Node.js HTTP Server | Routing</h1>'')
     @ html_line 12 (js ''<div>'')
     @ html_line 16 (js ''<ul>'')
     @ nav_item ''/'' ''Home''
     @ nav_item ''/plain-text'' ''Plain Text''
     @ nav_item ''/json'' ''JSON''
     @ nav_item ''/echo?input=Node.js'' ''Echo''
     @ nav_item ''/mern'' ''MERN''
     @ nav_item ''/mongodb'' ''MongoDB''
     @ nav_item ''/express'' ''Express''
     @ nav_item ''/react'' ''React''
     @ nav_item ''/nodejs'' ''Node.js''
     @ html_line 16 (js ''</ul>'')
     @ html_line 12 (js ''</div>'')
     @ replicate 8 0x20"

text \<open>
  The body of the \<open>/echo\<close> route. \<open>query.input || 'Hello'\<close> keeps a truthy value; a
  repeated key gives an array, which has no \<open>toUpperCase\<close>, and the call throws.
\<close>

definition echo :: "env \<Rightarrow> jsval \<Rightarrow> error + jsval" where
  "echo e q =
     (case get_prop q (js ''input'') of
        Inl err \<Rightarrow> Inl err
      | Inr v \<Rightarrow>
          (case (if truthy v then v else Str (js ''Hello'')) of
             Str input \<Rightarrow>
               Inr (Obj [(js ''normal'', Str input),
                         (js ''shouty'', Str (toUpperCase (unicode_upper e) input)),
                         (js ''characterCount'', Num (Fin (of_nat (length input)))),
                         (js ''backwards'', Str (rev input))])
           | _ \<Rightarrow> Inl TypeError))"

text \<open>\<open>xs[i]\<close> on an array without holes: \<open>undefined\<close> out of range.\<close>

definition nth_opt :: "'a list \<Rightarrow> nat \<Rightarrow> 'a option" where
  "nth_opt xs i = (if i < length xs then Some (xs ! i) else None)"

text \<open>
  The bodies of the four routes that change or read one product. Each gives the response
  sent and the contents of \<open>products\<close> afterwards, or the exception that escapes. For
  POST and PATCH this is the result of the \<open>end\<close> callback, once the whole body has
  arrived and \<open>JSON.parse\<close> has run on it.
\<close>

definition post_products :: "jsval list \<Rightarrow> jsval option \<Rightarrow> error + (response \<times> jsval list)" where
  "post_products products parsed =
     (case parsed of
        None \<Rightarrow> Inl SyntaxError
      | Some productData \<Rightarrow>
          Inr (jsonResponse 201
                 (Obj [(js ''status'', Str (js ''Created'')),
                       (js ''message'', Str (js ''Product created successfully''))]),
               add products productData))"

definition get_item :: "jsval list \<Rightarrow> jsnum \<Rightarrow> error + (response \<times> jsval list)" where
  "get_item products resourceId =
     (case getById products resourceId of
        Inl err \<Rightarrow> Inl err
      | Inr p \<Rightarrow>
          if \<not> truthy p
          then Inr (jsonResponse 404 (Obj [(js ''status'', Str (js ''Not Found''))]), products)
          else Inr (jsonResponse 200
                      (Obj [(js ''status'', Str (js ''OK'')), (js ''product'', p)]), products))"

definition patch_item ::
  "jsval list \<Rightarrow> jsnum \<Rightarrow> jsval option \<Rightarrow> error + (response \<times> jsval list)" where
  "patch_item products resourceId parsed =
     (case parsed of
        None \<Rightarrow> Inl SyntaxError
      | Some productData \<Rightarrow>
          (case update products resourceId productData of
             Inl err \<Rightarrow> Inl err
           | Inr (isUpdated, products') \<Rightarrow>
               if \<not> isUpdated
               then Inr (jsonResponse 404 (Obj [(js ''status'', Str (js ''Not Found''))]),
                         products')
               else Inr (jsonResponse 200 (Obj [(js ''status'', Str (js ''OK''))]), products')))"

definition delete_item :: "jsval list \<Rightarrow> jsnum \<Rightarrow> error + (response \<times> jsval list)" where
  "delete_item products resourceId =
     (case remove_product products resourceId of
        Inl err \<Rightarrow> Inl err
      | Inr (removed, products') \<Rightarrow>
          if \<not> removed
          then Inr (jsonResponse 404 (Obj [(js ''status'', Str (js ''Not Found''))]), products')
          else Inr (jsonResponse 200 (Obj [(js ''status'', Str (js ''OK''))]), products'))"

text \<open>
  The handler passed to \<open>http.createServer\<close>: the routes in the order of the source, the
  first that matches answering.
\<close>

definition requestListener ::
  "env \<Rightarrow> jsval list \<Rightarrow> request \<Rightarrow> error + (response \<times> jsval list)" where
  "requestListener e products req =
     (if req_method req = js ''GET'' \<and> (pathname req = js ''/'' \<or> pathname req = js ''/home'')
      then Inr (htmlResponse 200 homePageHtml, products)
      else if req_method req = js ''GET'' \<and> pathname req = js ''/plain-text''
      then Inr (textResponse 200 (js ''This is a plain text response.''), products)
      else if req_method req = js ''GET'' \<and> pathname req = js ''/json''
      then Inr (jsonResponse 200
                  (Obj [(js ''greetings'', Str (js ''Hello Node.js HTTP Server!''))]), products)
      else if req_method req = js ''GET'' \<and> pathname req = js ''/echo''
      then (case echo e (query req) of
              Inl err \<Rightarrow> Inl err
            | Inr echoData \<Rightarrow> Inr (jsonResponse 200 echoData, products))
      else if req_method req = js ''GET'' \<and> prefix (js ''/static/'') (pathname req)
      then (case staticFileResponse e
                   (path_join e [dirname e, js ''public'',
                                 replace_first (js ''/static/'') [] (pathname req)]) of
              Inl err \<Rightarrow> Inl err
            | Inr r \<Rightarrow> Inr (r, products))
      else
        let reqUrlParts = split_on 0x2F (pathname req);
            resource = nth_opt reqUrlParts 1;
            resourceId = Number (nth_opt reqUrlParts 2)
        in
          if req_method req = js ''GET'' \<and> length reqUrlParts = 2
             \<and> resource = Some (js ''products'')
          then Inr (jsonResponse 200
                      (Obj [(js ''status'', Str (js ''OK'')),
                            (js ''products'', Arr (all_products products))]), products)
          else if req_method req = js ''POST'' \<and> length reqUrlParts = 2
                  \<and> resource = Some (js ''products'')
          then post_products products (json_body req)
          else if req_method req = js ''GET'' \<and> length reqUrlParts = 3
                  \<and> resource = Some (js ''products'') \<and> isInteger resourceId
          then get_item products resourceId
          else if req_method req = js ''PATCH'' \<and> length reqUrlParts = 3
                  \<and> resource = Some (js ''products'') \<and> isInteger resourceId
          then patch_item products resourceId (json_body req)
          else if req_method req = js ''DELETE'' \<and> length reqUrlParts = 3
                  \<and> resource = Some (js ''products'') \<and> isInteger resourceId
          then delete_item products resourceId
          else Inr (notFoundResponse, products))"

section \<open>Notions used in the properties\<close>

text \<open>
  A value whose properties can be read without an exception: anything but \<open>undefined\<close>
  and \<open>null\<close>. The store operations are specified for a store of such values.
\<close>

definition readable :: "jsval \<Rightarrow> bool" where
  "readable v = (v \<noteq> Undefined \<and> v \<noteq> Null)"

text \<open>\<open>k\<close> is the index of the first record of \<open>xs\<close> whose id is \<open>i\<close>.\<close>

definition first_match :: "jsnum \<Rightarrow> jsval list \<Rightarrow> nat \<Rightarrow> bool" where
  "first_match i xs k =
     (k < length xs \<and> has_id i (xs ! k) = Inr True \<and> (\<forall>j<k. has_id i (xs ! j) = Inr False))"

text \<open>The partial gives a value for the field \<open>k\<close>: \<open>data.k\<close> is neither \<open>undefined\<close> nor \<open>null\<close>.\<close>

definition given :: "jsval \<Rightarrow> jsstring \<Rightarrow> bool" where
  "given data k = (case get_prop data k of Inl _ \<Rightarrow> False | Inr v \<Rightarrow> \<not> nullish v)"

text \<open>The field \<open>k\<close> is present in the object: it is one of its own properties.\<close>

fun present :: "jsval \<Rightarrow> jsstring \<Rightarrow> bool" where
  "present (Obj kvs) k = (map_of kvs k \<noteq> None)"
| "present _ k = False"

text \<open>
  A decimal integer as text: an optional sign and one or more decimal digits. This is the
  specification's "syntactically valid integer".
\<close>

definition decimal_integer :: "jsstring \<Rightarrow> bool" where
  "decimal_integer s =
     (let ds = (case s of [] \<Rightarrow> [] | c # t \<Rightarrow> if c = 0x2B \<or> c = 0x2D then t else s)
      in ds \<noteq> [] \<and> list_all (is_digit_in 10) ds)"

text \<open>The content-type table of the specification, and the lookup with its default.\<close>

definition mime_table :: "(string \<times> string) list" where
  "mime_table =
     [(''.html'', ''text/html''), (''.jpg'', ''image/jpeg''), (''.jpeg'', ''image/jpeg''),
      (''.png'', ''image/png''), (''.css'', ''text/css''), (''.js'', ''application/javascript''),
      (''.pdf'', ''application/pdf''), (''.csv'', ''text/csv''), (''.txt'', ''text/plain'')]"

definition mime_of :: "jsstring \<Rightarrow> jsstring" where
  "mime_of ext =
     (case map_of (map (\<lambda>(x, m). (js x, js m)) mime_table) ext of
        Some m \<Rightarrow> m
      | None \<Rightarrow> js ''application/octet-stream'')"

text \<open>An environment and requests to run the handler on.\<close>

definition join_slash :: "jsstring list \<Rightarrow> jsstring" where
  "join_slash ps = foldr (\<lambda>p acc. if acc = [] then p else p @ 0x2F # acc) ps []"

definition example_env :: env where
  "example_env =
     \<lparr>dirname = js ''/srv'', path_join = join_slash,
      existsSync = (\<lambda>p. p = js ''/srv/public/style.css'' \<or> p = js ''/srv/public''),
      readStream_ok = (\<lambda>p. p = js ''/srv/public/style.css''),
      unicode_upper = id, unicode_lower = id\<rparr>"

definition request_of :: "string \<Rightarrow> string \<Rightarrow> jsval option \<Rightarrow> request" where
  "request_of m p b = \<lparr>req_method = js m, pathname = js p, query = Obj [], json_body = b\<rparr>"

section \<open>Searching the store\<close>

lemma has_id_readable: "readable p \<Longrightarrow> has_id i p = Inr True \<or> has_id i p = Inr False"
  by (cases p) (auto simp: has_id_def readable_def)

lemma has_id_Obj: "has_id i p = Inr True \<Longrightarrow> \<exists>kvs. p = Obj kvs"
  by (cases p) (auto simp: has_id_def)

lemma findIndex_from_none:
  "\<forall>p\<in>set xs. has_id i p = Inr False \<Longrightarrow> findIndex_from k (has_id i) xs = Inr (- 1)"
  by (induction xs arbitrary: k) auto

lemma find_js_none:
  "\<forall>p\<in>set xs. has_id i p = Inr False \<Longrightarrow> find_js (has_id i) xs = Inr Undefined"
  by (induction xs) auto

lemma first_match_Cons:
  "first_match i (x # xs) n \<longleftrightarrow>
     (n = 0 \<and> has_id i x = Inr True) \<or>
     (has_id i x = Inr False \<and> (\<exists>m. n = Suc m \<and> first_match i xs m))"
proof (cases n)
  case 0
  then show ?thesis by (auto simp: first_match_def)
next
  case (Suc m)
  have "(\<forall>j<Suc m. has_id i ((x # xs) ! j) = Inr False) \<longleftrightarrow>
        (has_id i x = Inr False \<and> (\<forall>j<m. has_id i (xs ! j) = Inr False))"
    by (auto simp: less_Suc_eq_0_disj)
  with Suc show ?thesis by (auto simp: first_match_def)
qed

lemma findIndex_from_first:
  "first_match i xs n \<Longrightarrow> findIndex_from k (has_id i) xs = Inr (k + int n)"
proof (induction xs arbitrary: k n)
  case Nil
  then show ?case by (simp add: first_match_def)
next
  case (Cons x xs)
  from Cons.prems show ?case
    by (auto simp: first_match_Cons Cons.IH)
qed

lemma find_js_first:
  "first_match i xs n \<Longrightarrow> find_js (has_id i) xs = Inr (xs ! n)"
proof (induction xs arbitrary: n)
  case Nil
  then show ?case by (simp add: first_match_def)
next
  case (Cons x xs)
  from Cons.prems show ?case
    by (auto simp: first_match_Cons Cons.IH)
qed

lemma ex_first_match:
  "list_all readable xs \<Longrightarrow> \<exists>p\<in>set xs. has_id i p = Inr True \<Longrightarrow> \<exists>n. first_match i xs n"
proof (induction xs)
  case Nil
  then show ?case by simp
next
  case (Cons x xs)
  show ?case
  proof (cases "has_id i x = Inr True")
    case True
    then have "first_match i (x # xs) 0" by (simp add: first_match_Cons)
    then show ?thesis ..
  next
    case False
    with Cons.prems have x: "has_id i x = Inr False"
      using has_id_readable [of x i] by simp
    from False Cons.prems have "\<exists>p\<in>set xs. has_id i p = Inr True" by auto
    with Cons obtain m where "first_match i xs m" by auto
    with x have "first_match i (x # xs) (Suc m)" by (simp add: first_match_Cons)
    then show ?thesis ..
  qed
qed

lemma no_match_all_False:
  "list_all readable xs \<Longrightarrow> \<not> (\<exists>p\<in>set xs. has_id i p = Inr True) \<Longrightarrow>
   \<forall>p\<in>set xs. has_id i p = Inr False"
  using has_id_readable by (auto simp: list_all_iff)

lemma findIndex_first: "first_match i xs n \<Longrightarrow> findIndex (has_id i) xs = Inr (int n)"
  by (simp add: findIndex_def findIndex_from_first)

lemma findIndex_none:
  "\<forall>p\<in>set xs. has_id i p = Inr False \<Longrightarrow> findIndex (has_id i) xs = Inr (- 1)"
  by (simp add: findIndex_def findIndex_from_none)

lemma remove_found:
  "first_match i products k \<Longrightarrow>
   remove_product products i = Inr (True, take k products @ drop (Suc k) products)"
  by (simp add: remove_product_def findIndex_first splice1_def)

lemma remove_not_found:
  assumes "list_all readable products" "\<not> (\<exists>p\<in>set products. has_id i p = Inr True)"
  shows "remove_product products i = Inr (False, products)"
  using no_match_all_False [OF assms] by (simp add: remove_product_def findIndex_none)

lemma single_match_rest:
  assumes ok: "list_all readable xs"
    and k: "first_match i xs k"
    and one: "length (filter (\<lambda>p. has_id i p = Inr True) xs) = 1"
  shows "\<forall>p\<in>set (take k xs @ drop (Suc k) xs). has_id i p = Inr False"
proof -
  let ?P = "\<lambda>p. has_id i p = Inr True"
  from k have kl: "k < length xs" and hit: "?P (xs ! k)" by (simp_all add: first_match_def)
  have "length (filter ?P xs)
        = length (filter ?P (take k xs @ xs ! k # drop (Suc k) xs))"
    by (rule arg_cong [where f = "\<lambda>l. length (filter ?P l)"], rule id_take_nth_drop, rule kl)
  also have "\<dots> = length (filter ?P (take k xs)) + 1 + length (filter ?P (drop (Suc k) xs))"
    using hit by simp
  finally have "length (filter ?P xs)
        = length (filter ?P (take k xs)) + 1 + length (filter ?P (drop (Suc k) xs))" .
  with one have "filter ?P (take k xs) = []" "filter ?P (drop (Suc k) xs) = []"
    by simp_all
  then have none: "\<forall>p\<in>set (take k xs @ drop (Suc k) xs). \<not> ?P p"
    by (auto simp: filter_empty_conv)
  have "\<forall>p\<in>set (take k xs @ drop (Suc k) xs). readable p"
    using ok by (auto simp: list_all_iff dest: in_set_takeD in_set_dropD)
  with none show ?thesis using has_id_readable by blast
qed

section \<open>Assigning the fields\<close>

lemma map_of_set_own:
  "map_of (set_own k v kvs) k' = (if k' = k then Some v else map_of kvs k')"
  by (induction kvs) auto

lemma assign_field_Obj:
  assumes "readable data"
  shows "\<exists>kvs'. assign_field data k (Obj kvs) = Inr (Obj kvs')
           \<and> (\<forall>f. get_prop (Obj kvs') f =
                  (if f = k \<and> given data k then get_prop data k else get_prop (Obj kvs) f))"
proof -
  from assms obtain d where d: "get_prop data k = Inr d"
    by (cases data) (auto simp: readable_def)
  show ?thesis
  proof (cases "nullish d")
    case True
    let ?old = "case map_of kvs k of None \<Rightarrow> Undefined | Some v \<Rightarrow> v"
    have "assign_field data k (Obj kvs) = Inr (Obj (set_own k ?old kvs))"
      using d True by (simp add: assign_field_def)
    moreover have "\<forall>f. get_prop (Obj (set_own k ?old kvs)) f =
                    (if f = k \<and> given data k then get_prop data k else get_prop (Obj kvs) f)"
      using d True by (auto simp: given_def map_of_set_own)
    ultimately show ?thesis by blast
  next
    case False
    have "assign_field data k (Obj kvs) = Inr (Obj (set_own k d kvs))"
      using d False by (simp add: assign_field_def)
    moreover have "\<forall>f. get_prop (Obj (set_own k d kvs)) f =
                    (if f = k \<and> given data k then get_prop data k else get_prop (Obj kvs) f)"
      using d False by (auto simp: given_def map_of_set_own)
    ultimately show ?thesis by blast
  qed
qed

lemma field_names_distinct:
  "js ''title'' \<noteq> js ''sku''" "js ''title'' \<noteq> js ''price''" "js ''sku'' \<noteq> js ''price''"
  "js ''id'' \<noteq> js ''title''" "js ''id'' \<noteq> js ''sku''" "js ''id'' \<noteq> js ''price''"
  by (simp_all add: js_def)

lemma update_found:
  assumes k: "first_match i products k" and data: "readable data"
  shows "\<exists>p'. update products i data = Inr (True, products[k := p'])
           \<and> (\<forall>f. get_prop p' f =
                  (if f \<in> {js ''title'', js ''sku'', js ''price''} \<and> given data f
                   then get_prop data f else get_prop (products ! k) f))"
proof -
  from k have "has_id i (products ! k) = Inr True" by (simp add: first_match_def)
  then obtain kvs where kvs: "products ! k = Obj kvs" using has_id_Obj by blast
  obtain k1 where k1: "assign_field data (js ''title'') (Obj kvs) = Inr (Obj k1)"
    and g1: "\<And>f. get_prop (Obj k1) f =
        (if f = js ''title'' \<and> given data (js ''title'') then get_prop data (js ''title'')
         else get_prop (Obj kvs) f)"
    using assign_field_Obj [OF data, of "js ''title''" kvs] by blast
  obtain k2 where k2: "assign_field data (js ''sku'') (Obj k1) = Inr (Obj k2)"
    and g2: "\<And>f. get_prop (Obj k2) f =
        (if f = js ''sku'' \<and> given data (js ''sku'') then get_prop data (js ''sku'')
         else get_prop (Obj k1) f)"
    using assign_field_Obj [OF data, of "js ''sku''" k1] by blast
  obtain k3 where k3: "assign_field data (js ''price'') (Obj k2) = Inr (Obj k3)"
    and g3: "\<And>f. get_prop (Obj k3) f =
        (if f = js ''price'' \<and> given data (js ''price'') then get_prop data (js ''price'')
         else get_prop (Obj k2) f)"
    using assign_field_Obj [OF data, of "js ''price''" k2] by blast
  have "update products i data = Inr (True, products[k := Obj k3])"
    using findIndex_first [OF k] kvs k1 k2 k3 by (simp add: update_def)
  moreover have "\<forall>f. get_prop (Obj k3) f =
                  (if f \<in> {js ''title'', js ''sku'', js ''price''} \<and> given data f
                   then get_prop data f else get_prop (products ! k) f)"
    unfolding g3 g2 g1 kvs using field_names_distinct by auto
  ultimately show ?thesis by blast
qed

lemma update_not_found:
  assumes "list_all readable products" "\<not> (\<exists>p\<in>set products. has_id i p = Inr True)"
  shows "update products i data = Inr (False, products)"
  using no_match_all_False [OF assms] by (simp add: update_def findIndex_none)

lemma assign_field_cong:
  assumes "get_prop d1 k = Inr a" "get_prop d2 k = Inr b" "(nullish a \<and> nullish b) \<or> a = b"
  shows "assign_field d1 k t = assign_field d2 k t"
  using assms by (auto simp: assign_field_def)

lemma map_of_filter_key:
  "map_of (filter (\<lambda>kv. fst kv \<noteq> f) kvs) g = (if g = f then None else map_of kvs g)"
  by (induction kvs) auto

lemma initial_products_readable: "list_all readable initial_products"
  by (simp add: initial_products_def product_def readable_def)

lemma has_id_product:
  "has_id (Fin (of_int j)) (product i t s p) = Inr (i = j)"
  by (simp add: has_id_def product_def js_def)

section \<open>The store operations\<close>

text \<open>
  C3. On a store of readable values: when no record has the id, \<open>remove\<close> returns false
  and the store is unchanged; when some record has it, \<open>remove\<close> returns true and the
  store afterwards is the old one without the record at the first matching index.
\<close>

theorem remove_product_result:
  assumes "list_all readable products"
  shows "if \<exists>p\<in>set products. has_id i p = Inr True
         then \<exists>k. first_match i products k
                \<and> remove_product products i = Inr (True, take k products @ drop (Suc k) products)
         else remove_product products i = Inr (False, products)"
proof (cases "\<exists>p\<in>set products. has_id i p = Inr True")
  case True
  with assms obtain k where k: "first_match i products k"
    using ex_first_match by blast
  with True show ?thesis using remove_found [OF k] by auto
next
  case False
  with assms show ?thesis using remove_not_found by simp
qed

theorem remove_product_result_witness:
  "list_all readable initial_products
   \<and> (\<exists>k. first_match (Fin 1002) initial_products k
          \<and> remove_product initial_products (Fin 1002)
              = Inr (True, take k initial_products @ drop (Suc k) initial_products))
   \<and> remove_product initial_products (Fin 9999) = Inr (False, initial_products)"
proof -
  have m: "\<exists>p\<in>set initial_products. has_id (Fin 1002) p = Inr True"
    using has_id_product [of 1002 1002] by (simp add: initial_products_def)
  have n: "\<not> (\<exists>p\<in>set initial_products. has_id (Fin 9999) p = Inr True)"
    using has_id_product [of 9999 1001] has_id_product [of 9999 1002]
      has_id_product [of 9999 1003]
    by (simp add: initial_products_def)
  show ?thesis
    using remove_product_result [OF initial_products_readable, of "Fin 1002"]
      remove_product_result [OF initial_products_readable, of "Fin 9999"]
      m n initial_products_readable
    by simp
qed

text \<open>
  C1. On a store of readable values and for a readable partial: when some record
  has the id, \<open>update\<close> returns true and changes only the first matching record, in
  which each of \<open>title\<close>, \<open>sku\<close>, \<open>price\<close> for which the partial gives a value that is
  neither absent nor null takes that value, and every other property keeps the value it
  had; an explicit price of 0 is given, so it is stored. When no record has the id,
  \<open>update\<close> returns false and the store is unchanged.
\<close>

theorem update_overwrites_given_fields:
  assumes "list_all readable products" and "readable data"
  shows "if \<exists>p\<in>set products. has_id i p = Inr True
         then \<exists>k p'. first_match i products k
                \<and> update products i data = Inr (True, products[k := p'])
                \<and> (\<forall>f. get_prop p' f =
                       (if f \<in> {js ''title'', js ''sku'', js ''price''} \<and> given data f
                        then get_prop data f else get_prop (products ! k) f))
                \<and> (get_prop data (js ''price'') = Inr (Num (Fin 0))
                     \<longrightarrow> get_prop p' (js ''price'') = Inr (Num (Fin 0)))
         else update products i data = Inr (False, products)"
proof (cases "\<exists>p\<in>set products. has_id i p = Inr True")
  case True
  with assms obtain k where k: "first_match i products k"
    using ex_first_match by blast
  from update_found [OF k assms(2)] obtain p' where
    u: "update products i data = Inr (True, products[k := p'])" and
    g: "\<forall>f. get_prop p' f =
          (if f \<in> {js ''title'', js ''sku'', js ''price''} \<and> given data f
           then get_prop data f else get_prop (products ! k) f)"
    by blast
  have z: "get_prop data (js ''price'') = Inr (Num (Fin 0))
        \<longrightarrow> get_prop p' (js ''price'') = Inr (Num (Fin 0))"
    by (simp add: g given_def nullish_def)
  show ?thesis
    unfolding if_P [OF True]
    by (rule exI [of _ k], rule exI [of _ p'], intro conjI, rule k, rule u, rule g, rule z)
next
  case False
  show ?thesis
    unfolding if_not_P [OF False] by (rule update_not_found [OF assms(1) False])
qed

theorem update_overwrites_given_fields_witness:
  "list_all readable initial_products
   \<and> readable (Obj [(js ''price'', Num (Fin 0))])
   \<and> (\<exists>k p'. first_match (Fin 1002) initial_products k
          \<and> update initial_products (Fin 1002) (Obj [(js ''price'', Num (Fin 0))])
              = Inr (True, initial_products[k := p'])
          \<and> get_prop p' (js ''price'') = Inr (Num (Fin 0))
          \<and> get_prop p' (js ''title'') = get_prop (initial_products ! k) (js ''title''))
   \<and> update initial_products (Fin 9999) (Obj [(js ''price'', Num (Fin 0))])
       = Inr (False, initial_products)"
proof -
  let ?d = "Obj [(js ''price'', Num (Fin 0))]"
  have r: "readable ?d" by (simp add: readable_def)
  have m: "\<exists>p\<in>set initial_products. has_id (Fin 1002) p = Inr True"
    using has_id_product [of 1002 1002] by (simp add: initial_products_def)
  have n: "\<not> (\<exists>p\<in>set initial_products. has_id (Fin 9999) p = Inr True)"
    using has_id_product [of 9999 1001] has_id_product [of 9999 1002]
      has_id_product [of 9999 1003]
    by (simp add: initial_products_def)
  have p: "get_prop ?d (js ''price'') = Inr (Num (Fin 0))" by simp
  have t: "\<not> given ?d (js ''title'')" by (simp add: given_def nullish_def js_def)
  from update_overwrites_given_fields
         [OF initial_products_readable r, of "Fin 1002", unfolded if_P [OF m]]
  obtain k p' where k: "first_match (Fin 1002) initial_products k"
    and u: "update initial_products (Fin 1002) ?d = Inr (True, initial_products[k := p'])"
    and g: "\<forall>f. get_prop p' f =
       (if f \<in> {js ''title'', js ''sku'', js ''price''} \<and> given ?d f
        then get_prop ?d f else get_prop (initial_products ! k) f)"
    and z: "get_prop ?d (js ''price'') = Inr (Num (Fin 0))
            \<longrightarrow> get_prop p' (js ''price'') = Inr (Num (Fin 0))"
    by blast
  from z p have z': "get_prop p' (js ''price'') = Inr (Num (Fin 0))" by blast
  from spec [OF g, of "js ''title''"] t
  have t': "get_prop p' (js ''title'') = get_prop (initial_products ! k) (js ''title'')"
    by simp
  have found: "\<exists>k p'. first_match (Fin 1002) initial_products k
          \<and> update initial_products (Fin 1002) ?d = Inr (True, initial_products[k := p'])
          \<and> get_prop p' (js ''price'') = Inr (Num (Fin 0))
          \<and> get_prop p' (js ''title'') = get_prop (initial_products ! k) (js ''title'')"
    by (rule exI [of _ k], rule exI [of _ p'], intro conjI, rule k, rule u, rule z', rule t')
  have missing: "update initial_products (Fin 9999) ?d = Inr (False, initial_products)"
    using update_overwrites_given_fields
            [OF initial_products_readable r, of "Fin 9999", unfolded if_not_P [OF n]] .
  show ?thesis
    by (intro conjI, rule initial_products_readable, rule r, rule found, rule missing)
qed

text \<open>
  A field that is present with the value \<open>null\<close> is not written, so "present" alone
  does not decide what \<open>update\<close> overwrites: the partial \<open>{price: null}\<close> holds
  \<open>price\<close>, and the stored price of product 1001 stays 49900.
\<close>

theorem update_null_price_counterexample:
  "present (Obj [(js ''price'', Null)]) (js ''price'')
   \<and> update initial_products (Fin 1001) (Obj [(js ''price'', Null)])
       = Inr (True, initial_products)
   \<and> get_prop (initial_products ! 0) (js ''price'') = Inr (Num (Fin 49900))"
  by (simp add: update_def findIndex_def has_id_def assign_field_def nullish_def
      initial_products_def product_def js_def)

text \<open>
  C7. On a store of readable values in which some record has the id, \<open>update\<close> with the
  empty partial \<open>{}\<close> returns true, keeps the number of records, and leaves every
  property of every record with the value it had.
\<close>

theorem update_empty_partial:
  assumes "list_all readable products" and "\<exists>p\<in>set products. has_id i p = Inr True"
  shows "\<exists>products'. update products i (Obj []) = Inr (True, products')
           \<and> length products' = length products
           \<and> (\<forall>j<length products. \<forall>f. get_prop (products' ! j) f = get_prop (products ! j) f)"
proof -
  from assms obtain k where k: "first_match i products k"
    using ex_first_match by blast
  have r: "readable (Obj [])" by (simp add: readable_def)
  from update_found [OF k r] obtain p' where
    u: "update products i (Obj []) = Inr (True, products[k := p'])" and
    g: "\<forall>f. get_prop p' f =
          (if f \<in> {js ''title'', js ''sku'', js ''price''} \<and> given (Obj []) f
           then get_prop (Obj []) f else get_prop (products ! k) f)"
    by blast
  have ng: "\<not> given (Obj []) f" for f by (simp add: given_def nullish_def)
  from g ng have same: "get_prop p' f = get_prop (products ! k) f" for f by simp
  from k have kl: "k < length products" by (simp add: first_match_def)
  have "get_prop (products[k := p'] ! j) f = get_prop (products ! j) f" for j f
    using kl by (cases "j = k") (simp_all add: same)
  then have "\<forall>j<length products.
               \<forall>f. get_prop (products[k := p'] ! j) f = get_prop (products ! j) f"
    by blast
  with u show ?thesis by (intro exI [of _ "products[k := p']"]) simp
qed

theorem update_empty_partial_witness:
  "list_all readable initial_products
   \<and> (\<exists>p\<in>set initial_products. has_id (Fin 1003) p = Inr True)
   \<and> (\<exists>products'. update initial_products (Fin 1003) (Obj []) = Inr (True, products')
          \<and> length products' = length initial_products
          \<and> (\<forall>j<length initial_products.
                \<forall>f. get_prop (products' ! j) f = get_prop (initial_products ! j) f))"
proof -
  have m: "\<exists>p\<in>set initial_products. has_id (Fin 1003) p = Inr True"
    using has_id_product [of 1003 1003] by (simp add: initial_products_def)
  show ?thesis
    by (intro conjI, rule initial_products_readable, rule m,
        rule update_empty_partial [OF initial_products_readable m])
qed

text \<open>
  C9. On a store of readable values in which some record has the id, and for a partial
  object in which one of \<open>title\<close>, \<open>sku\<close>, \<open>price\<close> is present with the value \<open>null\<close>:
  \<open>update\<close> returns true, the stored field keeps its value, and the whole result is the
  one of the same update with that field left out of the partial.
\<close>

theorem update_null_field_unchanged:
  assumes "list_all readable products" and "\<exists>p\<in>set products. has_id i p = Inr True"
    and "f \<in> {js ''title'', js ''sku'', js ''price''}" and "map_of kvs f = Some Null"
  shows "\<exists>k p'. first_match i products k
           \<and> update products i (Obj kvs) = Inr (True, products[k := p'])
           \<and> get_prop p' f = get_prop (products ! k) f
           \<and> update products i (Obj kvs)
               = update products i (Obj (filter (\<lambda>kv. fst kv \<noteq> f) kvs))"
proof -
  from assms(1,2) obtain k where k: "first_match i products k"
    using ex_first_match by blast
  have r: "readable (Obj kvs)" by (simp add: readable_def)
  from update_found [OF k r] obtain p' where
    u: "update products i (Obj kvs) = Inr (True, products[k := p'])" and
    g: "\<forall>f. get_prop p' f =
          (if f \<in> {js ''title'', js ''sku'', js ''price''} \<and> given (Obj kvs) f
           then get_prop (Obj kvs) f else get_prop (products ! k) f)"
    by blast
  from assms(4) have ng: "\<not> given (Obj kvs) f" by (simp add: given_def nullish_def)
  from spec [OF g, of f] ng have same: "get_prop p' f = get_prop (products ! k) f" by simp
  let ?kvs' = "filter (\<lambda>kv. fst kv \<noteq> f) kvs"
  have c: "assign_field (Obj kvs) h t = assign_field (Obj ?kvs') h t" for h t
  proof (cases "h = f")
    case True
    show ?thesis
      by (rule assign_field_cong [where a = Null and b = Undefined])
        (simp_all add: True assms(4) map_of_filter_key nullish_def)
  next
    case False
    show ?thesis
      by (rule assign_field_cong
            [where a = "case map_of kvs h of None \<Rightarrow> Undefined | Some v \<Rightarrow> v"
               and b = "case map_of kvs h of None \<Rightarrow> Undefined | Some v \<Rightarrow> v"])
        (simp_all add: False map_of_filter_key)
  qed
  have e: "update products i (Obj kvs) = update products i (Obj ?kvs')"
    unfolding update_def c by (rule refl)
  show ?thesis
    by (rule exI [of _ k], rule exI [of _ p'], intro conjI, rule k, rule u, rule same, rule e)
qed

theorem update_null_field_unchanged_witness:
  "list_all readable initial_products
   \<and> (\<exists>p\<in>set initial_products. has_id (Fin 1001) p = Inr True)
   \<and> js ''sku'' \<in> {js ''title'', js ''sku'', js ''price''}
   \<and> map_of [(js ''sku'', Null), (js ''price'', Num (Fin 5))] (js ''sku'') = Some Null
   \<and> (\<exists>k p'. first_match (Fin 1001) initial_products k
          \<and> update initial_products (Fin 1001) (Obj [(js ''sku'', Null), (js ''price'', Num (Fin 5))])
              = Inr (True, initial_products[k := p'])
          \<and> get_prop p' (js ''sku'') = get_prop (initial_products ! k) (js ''sku'')
          \<and> update initial_products (Fin 1001) (Obj [(js ''sku'', Null), (js ''price'', Num (Fin 5))])
              = update initial_products (Fin 1001)
                  (Obj (filter (\<lambda>kv. fst kv \<noteq> js ''sku'')
                     [(js ''sku'', Null), (js ''price'', Num (Fin 5))])))"
proof -
  have m: "\<exists>p\<in>set initial_products. has_id (Fin 1001) p = Inr True"
    using has_id_product [of 1001 1001] by (simp add: initial_products_def)
  have f: "js ''sku'' \<in> {js ''title'', js ''sku'', js ''price''}" by simp
  have n: "map_of [(js ''sku'', Null), (js ''price'', Num (Fin 5))] (js ''sku'') = Some Null"
    by simp
  show ?thesis
    by (intro conjI, rule initial_products_readable, rule m, rule f, rule n,
        rule update_null_field_unchanged [OF initial_products_readable m f n])
qed

text \<open>
  C10. On a store of readable values in which some record has the id, and for any readable
  partial (one that holds an \<open>id\<close> of its own included): \<open>update\<close> returns true and the
  \<open>id\<close> of the record at each position is what it was, so the multiset of ids is the
  same.
\<close>

theorem update_preserves_ids:
  assumes "list_all readable products" and "\<exists>p\<in>set products. has_id i p = Inr True"
    and "readable data"
  shows "\<exists>products'. update products i data = Inr (True, products')
           \<and> map (\<lambda>p. get_prop p (js ''id'')) products'
               = map (\<lambda>p. get_prop p (js ''id'')) products
           \<and> mset (map (\<lambda>p. get_prop p (js ''id'')) products')
               = mset (map (\<lambda>p. get_prop p (js ''id'')) products)"
proof -
  from assms(1,2) obtain k where k: "first_match i products k"
    using ex_first_match by blast
  from update_found [OF k assms(3)] obtain p' where
    u: "update products i data = Inr (True, products[k := p'])" and
    g: "\<forall>f. get_prop p' f =
          (if f \<in> {js ''title'', js ''sku'', js ''price''} \<and> given data f
           then get_prop data f else get_prop (products ! k) f)"
    by blast
  from spec [OF g, of "js ''id''"] field_names_distinct
  have same: "get_prop p' (js ''id'') = get_prop (products ! k) (js ''id'')" by simp
  have "map (\<lambda>p. get_prop p (js ''id'')) (products[k := p'])
        = (map (\<lambda>p. get_prop p (js ''id'')) products)[k := get_prop (products ! k) (js ''id'')]"
    by (simp add: map_update same)
  also have "\<dots> = map (\<lambda>p. get_prop p (js ''id'')) products"
  proof -
    from k have "k < length products" by (simp add: first_match_def)
    then have "get_prop (products ! k) (js ''id'')
               = map (\<lambda>p. get_prop p (js ''id'')) products ! k"
      by simp
    then show ?thesis by (simp only: list_update_id)
  qed
  finally have "map (\<lambda>p. get_prop p (js ''id'')) (products[k := p'])
        = map (\<lambda>p. get_prop p (js ''id'')) products" .
  with u show ?thesis by (intro exI [of _ "products[k := p']"]) simp
qed

theorem update_preserves_ids_witness:
  "list_all readable initial_products
   \<and> (\<exists>p\<in>set initial_products. has_id (Fin 1002) p = Inr True)
   \<and> readable (Obj [(js ''id'', Num (Fin 7)), (js ''title'', Str (js ''Hat''))])
   \<and> (\<exists>products'.
         update initial_products (Fin 1002)
           (Obj [(js ''id'', Num (Fin 7)), (js ''title'', Str (js ''Hat''))])
         = Inr (True, products')
         \<and> map (\<lambda>p. get_prop p (js ''id'')) products'
             = map (\<lambda>p. get_prop p (js ''id'')) initial_products
         \<and> mset (map (\<lambda>p. get_prop p (js ''id'')) products')
             = mset (map (\<lambda>p. get_prop p (js ''id'')) initial_products))"
proof -
  have m: "\<exists>p\<in>set initial_products. has_id (Fin 1002) p = Inr True"
    using has_id_product [of 1002 1002] by (simp add: initial_products_def)
  have r: "readable (Obj [(js ''id'', Num (Fin 7)), (js ''title'', Str (js ''Hat''))])"
    by (simp add: readable_def)
  show ?thesis
    by (intro conjI, rule initial_products_readable, rule m, rule r,
        rule update_preserves_ids [OF initial_products_readable m r])
qed

section \<open>Routing\<close>

lemma split_on_nonempty: "split_on sep s \<noteq> []"
  by (induction s) (auto split: list.splits)

lemma split_on_Cons:
  "split_on sep (c # cs) =
     (if c = sep then [] # split_on sep cs
      else (c # hd (split_on sep cs)) # tl (split_on sep cs))"
  using split_on_nonempty [of sep cs] by (cases "split_on sep cs") simp_all

lemma split_on_static:
  "split_on 0x2F (js ''/static/'' @ r) = [] # js ''static'' # split_on 0x2F r"
  by (simp add: js_def split_on_Cons del: split_on.simps(2))

lemma fixed_paths_split:
  "split_on 0x2F (js ''/'') = [[], []]"
  "split_on 0x2F (js ''/home'') = [[], js ''home'']"
  "split_on 0x2F (js ''/plain-text'') = [[], js ''plain-text'']"
  "split_on 0x2F (js ''/json'') = [[], js ''json'']"
  "split_on 0x2F (js ''/echo'') = [[], js ''echo'']"
  "split_on 0x2F (js ''/products'') = [[], js ''products'']"
  by (simp_all add: js_def split_on_Cons del: split_on.simps(2))

lemma products_not_static: "js ''products'' \<noteq> js ''static''"
  by (simp add: js_def)

lemma methods_distinct:
  "js ''GET'' \<noteq> js ''POST''" "js ''GET'' \<noteq> js ''PATCH''" "js ''GET'' \<noteq> js ''DELETE''"
  "js ''POST'' \<noteq> js ''PATCH''" "js ''POST'' \<noteq> js ''DELETE''" "js ''PATCH'' \<noteq> js ''DELETE''"
  by (simp_all add: js_def)

lemma item_path_not_fixed:
  assumes "split_on 0x2F p = [a, js ''products'', seg]"
  shows "p \<noteq> js ''/''" "p \<noteq> js ''/home''" "p \<noteq> js ''/plain-text''" "p \<noteq> js ''/json''"
    "p \<noteq> js ''/echo''" "\<not> prefix (js ''/static/'') p"
proof -
  show "p \<noteq> js ''/''" "p \<noteq> js ''/home''" "p \<noteq> js ''/plain-text''" "p \<noteq> js ''/json''"
    "p \<noteq> js ''/echo''"
    using assms fixed_paths_split by auto
  show "\<not> prefix (js ''/static/'') p"
  proof
    assume "prefix (js ''/static/'') p"
    then obtain r where "p = js ''/static/'' @ r" by (auto simp: prefix_def)
    with assms split_on_static [of r] products_not_static show False by simp
  qed
qed

lemma requestListener_item:
  assumes "split_on 0x2F (pathname req) = [a, js ''products'', seg]"
  shows "requestListener e products req =
     (if isInteger (StringToNumber seg) \<and> req_method req = js ''GET''
      then get_item products (StringToNumber seg)
      else if isInteger (StringToNumber seg) \<and> req_method req = js ''PATCH''
      then patch_item products (StringToNumber seg) (json_body req)
      else if isInteger (StringToNumber seg) \<and> req_method req = js ''DELETE''
      then delete_item products (StringToNumber seg)
      else Inr (notFoundResponse, products))"
proof -
  note np = item_path_not_fixed [OF assms]
  have parts: "length [a, js ''products'', seg] = 3"
    "nth_opt [a, js ''products'', seg] 1 = Some (js ''products'')"
    "Number (nth_opt [a, js ''products'', seg] 2) = StringToNumber seg"
    by (simp_all add: nth_opt_def Number_def)
  have three: "(3::nat) \<noteq> 2" by simp
  show ?thesis
    unfolding requestListener_def assms Let_def parts
    by (simp only: np three simp_thms if_False if_True) (simp add: conj_commute)
qed

lemma requestListener_post:
  assumes "req_method req = js ''POST''" and "pathname req = js ''/products''"
  shows "requestListener e products req = post_products products (json_body req)"
  using methods_distinct
  by (simp add: requestListener_def assms nth_opt_def fixed_paths_split Let_def)

lemma static_path_not_fixed:
  assumes "prefix (js ''/static/'') p"
  shows "p \<noteq> js ''/''" "p \<noteq> js ''/home''" "p \<noteq> js ''/plain-text''" "p \<noteq> js ''/json''"
    "p \<noteq> js ''/echo''"
  using assms by (auto simp: js_def)

lemma requestListener_static:
  assumes "req_method req = js ''GET''" and "prefix (js ''/static/'') (pathname req)"
  shows "requestListener e products req =
     (case staticFileResponse e
             (path_join e [dirname e, js ''public'',
                           replace_first (js ''/static/'') [] (pathname req)]) of
        Inl err \<Rightarrow> Inl err
      | Inr r \<Rightarrow> Inr (r, products))"
  using static_path_not_fixed [OF assms(2)]
  by (simp add: requestListener_def assms)

lemma static_stream_error:
  assumes "req_method req = js ''GET''" and "prefix (js ''/static/'') (pathname req)"
    and "filePath = path_join e [dirname e, js ''public'',
                                 replace_first (js ''/static/'') [] (pathname req)]"
    and "existsSync e filePath" and "\<not> readStream_ok e filePath"
  shows "requestListener e products req = Inl HeadersSent"
  using assms(3,4,5)
  by (simp add: requestListener_static [OF assms(1,2)] staticFileResponse_def)

lemma static_directory_example:
  "requestListener example_env initial_products (request_of ''GET'' ''/static/'' None)
   = Inl HeadersSent"
  by code_simp

lemma echo_not_fixed:
  "js ''/echo'' \<noteq> js ''/''" "js ''/echo'' \<noteq> js ''/home''" "js ''/echo'' \<noteq> js ''/plain-text''"
  "js ''/echo'' \<noteq> js ''/json''"
  by (simp_all add: js_def)

lemma requestListener_echo:
  assumes "req_method req = js ''GET''" and "pathname req = js ''/echo''"
  shows "requestListener e products req =
     (case echo e (query req) of
        Inl err \<Rightarrow> Inl err
      | Inr echoData \<Rightarrow> Inr (jsonResponse 200 echoData, products))"
  using echo_not_fixed by (simp add: requestListener_def assms)

lemma contentType_of_mime_of: "contentType_of ext = mime_of ext"
  by (simp add: contentType_of_def mime_of_def mime_table_def)

section \<open>Decimal integers under \<open>Number\<close>\<close>

lemma bits_bounds:
  "0 < n \<Longrightarrow> 1 \<le> bits n \<and> 2 ^ (bits n - 1) \<le> n \<and> n < 2 ^ bits n"
proof (induction n rule: bits.induct)
  case (1 n)
  from "1.prems" have nn: "\<not> n \<le> 0" by simp
  have bn: "bits n = Suc (bits (n div 2))" using nn by (subst bits.simps) simp
  show ?case
  proof (cases "n = 1")
    case True
    have "bits 1 = 1" by (simp add: bits.simps)
    with True show ?thesis by simp
  next
    case False
    with "1.prems" have m: "0 < n div 2" by simp
    from "1.IH" [OF nn m] obtain b where b: "bits (n div 2) = Suc b"
      and lo: "2 ^ b \<le> n div 2" and hi: "n div 2 < 2 ^ Suc b"
      by (cases "bits (n div 2)") auto
    have "2 * 2 ^ b \<le> n" using lo by linarith
    moreover have "n < 2 * 2 ^ Suc b" using hi by linarith
    ultimately show ?thesis by (simp add: bn b)
  qed
qed

lemma pow2_nonneg: "0 \<le> x \<Longrightarrow> pow2 x = of_int (2 ^ nat x)"
  by (simp add: pow2_def)

lemma pow2_nonpos: "x \<le> 0 \<Longrightarrow> pow2 x = 1 / of_int (2 ^ nat (- x))"
  by (cases "x = 0") (simp_all add: pow2_def)

lemma ilog2_of_int:
  assumes "0 < n"
  shows "ilog2 (of_int n) = int (bits n) - 1"
proof -
  from bits_bounds [OF assms] have b: "1 \<le> bits n" and lo: "2 ^ (bits n - 1) \<le> n"
    by simp_all
  have one: "bits 1 = 1" by (simp add: bits.simps)
  have n: "nat (int (bits n) - 1) = bits n - 1" by simp
  have "pow2 (int (bits n) - 1) \<le> of_int n"
    using b lo by (simp only: pow2_nonneg n of_int_le_iff)
  then show ?thesis by (simp add: ilog2_def one)
qed

lemma round_half_even_int: "round_half_even (of_int k) = k"
  by (simp add: round_half_even_def)

lemma round_double_int:
  assumes "0 \<le> n" and "n < 2 ^ 53"
  shows "round_double (of_int n) = Fin (of_int n)"
proof (cases "n = 0")
  case True
  then show ?thesis by (simp add: round_double_def)
next
  case False
  with assms have pos: "0 < n" by simp
  from bits_bounds [OF pos] have b: "1 \<le> bits n" and lo: "2 ^ (bits n - 1) \<le> n"
    by simp_all
  let ?e = "int (bits n) - 1"
  have "(2::int) ^ (bits n - 1) < 2 ^ 53" using lo assms(2) by linarith
  then have "bits n - 1 < 53" by (rule power_less_imp_less_exp [rotated]) simp
  with b have e: "0 \<le> ?e" "?e \<le> 52" by simp_all
  then obtain k where k: "?e - 52 = - int k"
    by (metis minus_diff_eq nat_0_le diff_ge_0_iff_ge)
  have ulp: "pow2 (?e - 52) = 1 / of_int (2 ^ k)"
    unfolding k by (simp add: pow2_nonpos)
  have q: "\<bar>of_int n :: rat\<bar> / pow2 (?e - 52) = of_int (n * 2 ^ k)"
    unfolding ulp using pos by simp
  have r: "of_int (round_half_even (\<bar>of_int n :: rat\<bar> / pow2 (?e - 52))) * pow2 (?e - 52)
           = (of_int n :: rat)"
    unfolding q round_half_even_int unfolding ulp by simp
  have "(of_int n :: rat) < of_int (2 ^ 1024)"
    using assms(2) by (simp only: of_int_less_iff) simp
  then have small: "\<not> pow2 1024 \<le> (of_int n :: rat)"
    by (simp add: pow2_nonneg)
  have m: "max (ilog2 \<bar>of_int n :: rat\<bar>) (- 1022) = ?e"
    using pos e ilog2_of_int [OF pos] by simp
  show ?thesis
    by (simp only: round_double_def Let_def m r small of_int_eq_0_iff of_int_0_less_iff
        False pos if_False if_True)
qed

lemma is_digit_10: "is_digit_in 10 c \<longleftrightarrow> 0x30 \<le> c \<and> c \<le> 0x39"
  by (auto simp: is_digit_in_def digit_of_def word_le_nat_alt)

lemma digit_not_white: "is_digit_in 10 c \<Longrightarrow> \<not> is_white c"
  by (auto simp: is_digit_10 is_white_def word_le_nat_alt)

lemma trim_digits:
  assumes "list_all (is_digit_in 10) ds"
  shows "trim ds = ds"
proof -
  have "dropWhile is_white xs = xs" if "list_all (is_digit_in 10) xs" for xs
    using that by (cases xs) (auto simp: digit_not_white)
  moreover have "list_all (is_digit_in 10) (rev ds)" using assms by (simp add: list_all_iff)
  ultimately show ?thesis using assms by (simp add: trim_def)
qed

lemma digits_value_nonneg: "0 \<le> digits_value b ds"
proof -
  have "0 \<le> acc \<Longrightarrow>
        0 \<le> foldl (\<lambda>acc c. case digit_of c of Some d \<Rightarrow> acc * int b + int d | None \<Rightarrow> acc) acc ds"
    for acc
    by (induction ds arbitrary: acc) (auto split: option.splits)
  then show ?thesis by (simp add: digits_value_def)
qed

lemma unsigned_decimal_digits:
  assumes "ds \<noteq> []" and "list_all (is_digit_in 10) ds"
  shows "unsigned_decimal ds = round_double (of_int (digits_value 10 ds))"
proof -
  from assms obtain c t where ds: "ds = c # t" by (cases ds) auto
  with assms(2) have "is_digit_in 10 c" by simp
  then have "c \<noteq> 0x49" by (auto simp: is_digit_10)
  then have ni: "ds \<noteq> js ''Infinity''" by (simp add: ds js_def)
  have tw: "takeWhile (is_digit_in 10) ds = ds" "dropWhile (is_digit_in 10) ds = []"
    using assms(2) by (simp_all add: list_all_iff)
  have z: "digits_value 10 [] = 0" by (simp add: digits_value_def)
  show ?thesis
    using assms(1) ni by (simp add: unsigned_decimal_def tw exponent_part_def pow10_def z)
qed

lemma StringToNumber_digits:
  assumes "ds \<noteq> []" and "list_all (is_digit_in 10) ds"
  shows "StringToNumber ds = round_double (of_int (digits_value 10 ds))"
proof -
  from assms obtain c t where ds: "ds = c # t" by (cases ds) auto
  with assms(2) have c: "is_digit_in 10 c" by simp
  then have cs: "c \<noteq> 0x2B" "c \<noteq> 0x2D" by (auto simp: is_digit_10)
  show ?thesis
  proof (cases t)
    case Nil
    have "StringToNumber ds = unsigned_decimal ds"
      unfolding StringToNumber_def trim_digits [OF assms(2)] by (simp add: ds Nil)
    then show ?thesis using unsigned_decimal_digits [OF assms] by simp
  next
    case (Cons p u)
    with ds assms(2) have "is_digit_in 10 p" by simp
    then have ps: "p \<noteq> 0x78" "p \<noteq> 0x58" "p \<noteq> 0x6F" "p \<noteq> 0x4F" "p \<noteq> 0x62" "p \<noteq> 0x42"
      by (auto simp: is_digit_10)
    have "StringToNumber ds = unsigned_decimal ds"
      unfolding StringToNumber_def trim_digits [OF assms(2)]
      using cs ps by (simp add: ds Cons)
    then show ?thesis using unsigned_decimal_digits [OF assms] by simp
  qed
qed

lemma StringToNumber_decimal:
  assumes "ds \<noteq> []" and "list_all (is_digit_in 10) ds" and "digits_value 10 ds < 2 ^ 53"
  shows "StringToNumber ds = Fin (of_int (digits_value 10 ds))"
    and "isInteger (StringToNumber ds)"
proof -
  show "StringToNumber ds = Fin (of_int (digits_value 10 ds))"
    using StringToNumber_digits [OF assms(1,2)]
      round_double_int [OF digits_value_nonneg assms(3)] by simp
  then show "isInteger (StringToNumber ds)" by simp
qed

section \<open>The routes\<close>

text \<open>
  C2. For a request whose path splits on \<open>/\<close> into three parts with \<open>products\<close> as
  the second: when \<open>Number\<close> of the third part is an integer value, GET, PATCH and DELETE
  are answered by the item-level routes with that number as the id, and any other method
  by the 404 HTML fallback; when it is not an integer value, every method is answered by
  the 404 HTML fallback. A non-empty string of decimal digits below \<open>2 ^ 53\<close> is read as
  the integer it spells.
\<close>

theorem item_route_iff_integer_value:
  assumes "split_on 0x2F (pathname req) = [a, js ''products'', seg]"
  shows "(isInteger (StringToNumber seg) \<longrightarrow>
            requestListener e products req =
              (if req_method req = js ''GET'' then get_item products (StringToNumber seg)
               else if req_method req = js ''PATCH''
               then patch_item products (StringToNumber seg) (json_body req)
               else if req_method req = js ''DELETE''
               then delete_item products (StringToNumber seg)
               else Inr (notFoundResponse, products)))
       \<and> (\<not> isInteger (StringToNumber seg) \<longrightarrow>
            requestListener e products req = Inr (notFoundResponse, products))
       \<and> (seg \<noteq> [] \<and> list_all (is_digit_in 10) seg \<and> digits_value 10 seg < 2 ^ 53 \<longrightarrow>
            isInteger (StringToNumber seg)
            \<and> StringToNumber seg = Fin (of_int (digits_value 10 seg)))"
proof -
  have a: "isInteger (StringToNumber seg) \<longrightarrow>
            requestListener e products req =
              (if req_method req = js ''GET'' then get_item products (StringToNumber seg)
               else if req_method req = js ''PATCH''
               then patch_item products (StringToNumber seg) (json_body req)
               else if req_method req = js ''DELETE''
               then delete_item products (StringToNumber seg)
               else Inr (notFoundResponse, products))"
    by (simp add: requestListener_item [OF assms])
  have b: "\<not> isInteger (StringToNumber seg) \<longrightarrow>
            requestListener e products req = Inr (notFoundResponse, products)"
    by (simp add: requestListener_item [OF assms])
  have c: "seg \<noteq> [] \<and> list_all (is_digit_in 10) seg \<and> digits_value 10 seg < 2 ^ 53 \<longrightarrow>
            isInteger (StringToNumber seg)
            \<and> StringToNumber seg = Fin (of_int (digits_value 10 seg))"
    using StringToNumber_decimal [of seg] by blast
  show ?thesis by (intro conjI, rule a, rule b, rule c)
qed

theorem item_route_iff_integer_value_witness:
  "split_on 0x2F (pathname (request_of ''GET'' ''/products/1002'' None))
     = [[], js ''products'', js ''1002'']
   \<and> isInteger (StringToNumber (js ''1002''))
   \<and> requestListener example_env initial_products (request_of ''GET'' ''/products/1002'' None)
       = get_item initial_products (StringToNumber (js ''1002''))
   \<and> StringToNumber (js ''1002'') = Fin 1002
   \<and> split_on 0x2F (pathname (request_of ''DELETE'' ''/products/abc'' None))
       = [[], js ''products'', js ''abc'']
   \<and> \<not> isInteger (StringToNumber (js ''abc''))
   \<and> requestListener example_env initial_products (request_of ''DELETE'' ''/products/abc'' None)
       = Inr (notFoundResponse, initial_products)"
proof -
  have s1: "split_on 0x2F (pathname (request_of ''GET'' ''/products/1002'' None))
            = [[], js ''products'', js ''1002'']"
    by (simp add: request_of_def js_def split_on_Cons del: split_on.simps(2))
  have n1: "StringToNumber (js ''1002'') = Fin 1002" by code_simp
  have i1: "isInteger (StringToNumber (js ''1002''))" by (simp add: n1)
  have g: "req_method (request_of ''GET'' ''/products/1002'' None) = js ''GET''"
    by (simp add: request_of_def)
  have s2: "split_on 0x2F (pathname (request_of ''DELETE'' ''/products/abc'' None))
            = [[], js ''products'', js ''abc'']"
    by (simp add: request_of_def js_def split_on_Cons del: split_on.simps(2))
  have i2: "\<not> isInteger (StringToNumber (js ''abc''))" by code_simp
  from item_route_iff_integer_value [OF s1, of example_env initial_products] i1 g
  have r1: "requestListener example_env initial_products
              (request_of ''GET'' ''/products/1002'' None)
            = get_item initial_products (StringToNumber (js ''1002''))"
    by simp
  from item_route_iff_integer_value [OF s2, of example_env initial_products] i2
  have r2: "requestListener example_env initial_products
              (request_of ''DELETE'' ''/products/abc'' None)
            = Inr (notFoundResponse, initial_products)"
    by simp
  show ?thesis
    by (intro conjI, rule s1, rule i1, rule r1, rule n1, rule s2, rule i2, rule r2)
qed

text \<open>
  The test is on the numeric value, not on the syntax of the segment: the empty id segment
  of \<open>/products/\<close> is no integer, yet \<open>Number('')\<close> is 0 and the GET item route
  answers (404 as JSON, not the HTML fallback); and \<open>1.001e3\<close> is no integer literal,
  yet GET \<open>/products/1.001e3\<close> returns product 1001.
\<close>

theorem item_route_non_integer_segment_counterexample:
  "\<not> decimal_integer []
   \<and> split_on 0x2F (js ''/products/'') = [[], js ''products'', []]
   \<and> requestListener example_env initial_products (request_of ''GET'' ''/products/'' None)
       = Inr (jsonResponse 404 (Obj [(js ''status'', Str (js ''Not Found''))]), initial_products)
   \<and> jsonResponse 404 (Obj [(js ''status'', Str (js ''Not Found''))]) \<noteq> notFoundResponse
   \<and> \<not> decimal_integer (js ''1.001e3'')
   \<and> requestListener example_env initial_products
         (request_of ''GET'' ''/products/1.001e3'' None)
       = Inr (jsonResponse 200
                (Obj [(js ''status'', Str (js ''OK'')),
                      (js ''product'', product 1001 ''T-Shirt'' ''ABC-1001'' 49900)]),
              initial_products)"
proof -
  have d1: "\<not> decimal_integer []" by (simp add: decimal_integer_def)
  have s1: "split_on 0x2F (js ''/products/'') = [[], js ''products'', []]"
    by (simp add: js_def split_on_Cons del: split_on.simps(2))
  have r1: "requestListener example_env initial_products (request_of ''GET'' ''/products/'' None)
       = Inr (jsonResponse 404 (Obj [(js ''status'', Str (js ''Not Found''))]), initial_products)"
    by code_simp
  have j: "jsonResponse 404 (Obj [(js ''status'', Str (js ''Not Found''))]) \<noteq> notFoundResponse"
    by code_simp
  have d2: "\<not> decimal_integer (js ''1.001e3'')" by code_simp
  have r2: "requestListener example_env initial_products
         (request_of ''GET'' ''/products/1.001e3'' None)
       = Inr (jsonResponse 200
                (Obj [(js ''status'', Str (js ''OK'')),
                      (js ''product'', product 1001 ''T-Shirt'' ''ABC-1001'' 49900)]),
              initial_products)"
    by code_simp
  show ?thesis
    by (intro conjI, rule d1, rule s1, rule r1, rule j, rule d2, rule r2)
qed

text \<open>
  C4. For a GET request to \<open>/echo\<close>: when the query parameter \<open>input\<close> is a non-empty
  string \<open>s\<close>, the response is 200 with the JSON object whose \<open>normal\<close> is \<open>s\<close>,
  \<open>shouty\<close> is \<open>s\<close> in upper case, \<open>characterCount\<close> is the length of \<open>s\<close> and
  \<open>backwards\<close> is \<open>s\<close> reversed; when \<open>input\<close> is absent or empty, it is the object
  for \<open>Hello\<close>. Length and reversal count the elements of the JavaScript string, its
  UTF-16 code units; on an ASCII string, upper case changes exactly the letters a-z.
\<close>

theorem echo_response:
  assumes "req_method req = js ''GET''" and "pathname req = js ''/echo''"
  shows "(get_prop (query req) (js ''input'') = Inr (Str s) \<and> s \<noteq> [] \<longrightarrow>
            requestListener e products req =
              Inr (jsonResponse 200
                     (Obj [(js ''normal'', Str s),
                           (js ''shouty'', Str (toUpperCase (unicode_upper e) s)),
                           (js ''characterCount'', Num (Fin (of_nat (length s)))),
                           (js ''backwards'', Str (rev s))]), products))
       \<and> (get_prop (query req) (js ''input'') = Inr Undefined
            \<or> get_prop (query req) (js ''input'') = Inr (Str []) \<longrightarrow>
            requestListener e products req =
              Inr (jsonResponse 200
                     (Obj [(js ''normal'', Str (js ''Hello'')),
                           (js ''shouty'', Str (js ''HELLO'')),
                           (js ''characterCount'', Num (Fin 5)),
                           (js ''backwards'', Str (js ''olleH''))]), products))
       \<and> (list_all is_ascii s \<longrightarrow> toUpperCase (unicode_upper e) s = map ascii_upper s)"
proof -
  have hello: "toUpperCase u (js ''Hello'') = js ''HELLO''" for u
    by (simp add: toUpperCase_def js_def is_ascii_def ascii_upper_def)
  have len: "length (js ''Hello'') = 5" "rev (js ''Hello'') = js ''olleH''"
    by (simp_all add: js_def)
  have a: "get_prop (query req) (js ''input'') = Inr (Str s) \<and> s \<noteq> [] \<longrightarrow>
            requestListener e products req =
              Inr (jsonResponse 200
                     (Obj [(js ''normal'', Str s),
                           (js ''shouty'', Str (toUpperCase (unicode_upper e) s)),
                           (js ''characterCount'', Num (Fin (of_nat (length s)))),
                           (js ''backwards'', Str (rev s))]), products)"
    by (simp add: requestListener_echo [OF assms] echo_def)
  have b: "get_prop (query req) (js ''input'') = Inr Undefined
            \<or> get_prop (query req) (js ''input'') = Inr (Str []) \<longrightarrow>
            requestListener e products req =
              Inr (jsonResponse 200
                     (Obj [(js ''normal'', Str (js ''Hello'')),
                           (js ''shouty'', Str (js ''HELLO'')),
                           (js ''characterCount'', Num (Fin 5)),
                           (js ''backwards'', Str (js ''olleH''))]), products)"
    by (auto simp: requestListener_echo [OF assms] echo_def hello len)
  have c: "list_all is_ascii s \<longrightarrow> toUpperCase (unicode_upper e) s = map ascii_upper s"
    by (simp add: toUpperCase_def)
  show ?thesis by (intro conjI, rule a, rule b, rule c)
qed

theorem echo_response_witness:
  "req_method (request_of ''GET'' ''/echo'' None\<lparr>query := Obj [(js ''input'', Str (js ''abc''))]\<rparr>)
     = js ''GET''
   \<and> pathname (request_of ''GET'' ''/echo'' None\<lparr>query := Obj [(js ''input'', Str (js ''abc''))]\<rparr>)
     = js ''/echo''
   \<and> requestListener example_env initial_products
         (request_of ''GET'' ''/echo'' None\<lparr>query := Obj [(js ''input'', Str (js ''abc''))]\<rparr>)
       = Inr (jsonResponse 200
                (Obj [(js ''normal'', Str (js ''abc'')),
                      (js ''shouty'', Str (js ''ABC'')),
                      (js ''characterCount'', Num (Fin 3)),
                      (js ''backwards'', Str (js ''cba''))]), initial_products)
   \<and> requestListener example_env initial_products (request_of ''GET'' ''/echo'' None)
       = Inr (jsonResponse 200
                (Obj [(js ''normal'', Str (js ''Hello'')),
                      (js ''shouty'', Str (js ''HELLO'')),
                      (js ''characterCount'', Num (Fin 5)),
                      (js ''backwards'', Str (js ''olleH''))]), initial_products)"
proof -
  let ?r = "request_of ''GET'' ''/echo'' None\<lparr>query := Obj [(js ''input'', Str (js ''abc''))]\<rparr>"
  have m: "req_method ?r = js ''GET''" and p: "pathname ?r = js ''/echo''"
    by (simp_all add: request_of_def)
  have q: "get_prop (query ?r) (js ''input'') = Inr (Str (js ''abc'')) \<and> js ''abc'' \<noteq> []"
    by (simp add: js_def)
  have a: "list_all is_ascii (js ''abc'')" by (simp add: js_def is_ascii_def)
  have up: "map ascii_upper (js ''abc'') = js ''ABC''" by (simp add: js_def ascii_upper_def)
  have ln: "length (js ''abc'') = 3" "rev (js ''abc'') = js ''cba''" by (simp_all add: js_def)
  from echo_response [OF m p, of "js ''abc''" example_env initial_products] q a
  have r1: "requestListener example_env initial_products ?r
       = Inr (jsonResponse 200
                (Obj [(js ''normal'', Str (js ''abc'')),
                      (js ''shouty'', Str (js ''ABC'')),
                      (js ''characterCount'', Num (Fin 3)),
                      (js ''backwards'', Str (js ''cba''))]), initial_products)"
    by (simp add: up ln)
  let ?h = "request_of ''GET'' ''/echo'' None"
  have m': "req_method ?h = js ''GET''" and p': "pathname ?h = js ''/echo''"
    by (simp_all add: request_of_def)
  have q': "get_prop (query ?h) (js ''input'') = Inr Undefined"
    by (simp add: request_of_def)
  from echo_response [OF m' p', of "[]" example_env initial_products] q'
  have r2: "requestListener example_env initial_products ?h
       = Inr (jsonResponse 200
                (Obj [(js ''normal'', Str (js ''Hello'')),
                      (js ''shouty'', Str (js ''HELLO'')),
                      (js ''characterCount'', Num (Fin 5)),
                      (js ''backwards'', Str (js ''olleH''))]), initial_products)"
    by simp
  show ?thesis by (intro conjI, rule m, rule p, rule r1, rule r2)
qed

text \<open>
  C8. For a GET request under \<open>/static/\<close> whose file is served, that is, exists and is
  streamed without a read error, the response is 200 with the file piped, and its content
  type is the entry of the specification's table for the extension of the file path in
  lower case, \<open>application/octet-stream\<close> when the table has none.
\<close>

theorem static_content_type:
  assumes "req_method req = js ''GET''" and "prefix (js ''/static/'') (pathname req)"
    and "filePath = path_join e [dirname e, js ''public'',
                                 replace_first (js ''/static/'') [] (pathname req)]"
    and "existsSync e filePath" and "readStream_ok e filePath"
  shows "requestListener e products req =
           Inr (\<lparr>statusCode = 200,
                 contentType = mime_of (toLowerCase (unicode_lower e) (extname filePath)),
                 body = FileStream filePath\<rparr>, products)
         \<and> staticFileResponse e filePath =
             Inr \<lparr>statusCode = 200,
                  contentType = mime_of (toLowerCase (unicode_lower e) (extname filePath)),
                  body = FileStream filePath\<rparr>"
  using assms(3,4,5)
  by (simp add: requestListener_static [OF assms(1,2)] staticFileResponse_def
      contentType_of_mime_of)

theorem static_content_type_witness:
  "req_method (request_of ''GET'' ''/static/style.css'' None) = js ''GET''
   \<and> prefix (js ''/static/'') (pathname (request_of ''GET'' ''/static/style.css'' None))
   \<and> js ''/srv/public/style.css''
       = path_join example_env
           [dirname example_env, js ''public'',
            replace_first (js ''/static/'') []
              (pathname (request_of ''GET'' ''/static/style.css'' None))]
   \<and> existsSync example_env (js ''/srv/public/style.css'')
   \<and> readStream_ok example_env (js ''/srv/public/style.css'')
   \<and> requestListener example_env initial_products (request_of ''GET'' ''/static/style.css'' None)
       = Inr (\<lparr>statusCode = 200, contentType = js ''text/css'',
               body = FileStream (js ''/srv/public/style.css'')\<rparr>, initial_products)"
proof -
  let ?r = "request_of ''GET'' ''/static/style.css'' None"
  have m: "req_method ?r = js ''GET''" by (simp add: request_of_def)
  have p: "prefix (js ''/static/'') (pathname ?r)" by (simp add: request_of_def js_def)
  have f: "js ''/srv/public/style.css''
       = path_join example_env
           [dirname example_env, js ''public'',
            replace_first (js ''/static/'') [] (pathname ?r)]"
    by code_simp
  have x: "existsSync example_env (js ''/srv/public/style.css'')"
    by (simp add: example_env_def)
  have y: "readStream_ok example_env (js ''/srv/public/style.css'')"
    by (simp add: example_env_def)
  have t: "mime_of (toLowerCase (unicode_lower example_env) (extname (js ''/srv/public/style.css'')))
           = js ''text/css''"
    by code_simp
  from static_content_type [OF m p f x y, of initial_products] t
  have r: "requestListener example_env initial_products ?r
       = Inr (\<lparr>statusCode = 200, contentType = js ''text/css'',
               body = FileStream (js ''/srv/public/style.css'')\<rparr>, initial_products)"
    by simp
  show ?thesis by (intro conjI, rule m, rule p, rule f, rule x, rule y, rule r)
qed

text \<open>
  C5. On a store of readable values in which no record has the id \<open>x\<close>, and for a record
  \<open>r\<close> whose id is \<open>x\<close>: \<open>getById\<close> after \<open>add\<close> returns \<open>r\<close>, a record with that id.
  Over HTTP: POST \<open>/products\<close> with body \<open>r\<close> answers 201 and appends \<open>r\<close>, and a
  following GET \<open>/products/seg\<close>, for a segment that \<open>Number\<close> reads as the integer
  \<open>x\<close>, answers 200 with \<open>r\<close>.
\<close>

theorem add_then_getById:
  assumes "list_all readable products"
    and "\<not> (\<exists>p\<in>set products. has_id x p = Inr True)"
    and "has_id x r = Inr True"
    and "req_method post = js ''POST''" and "pathname post = js ''/products''"
    and "json_body post = Some r"
    and "req_method get = js ''GET''"
    and "split_on 0x2F (pathname get) = [a, js ''products'', seg]"
    and "StringToNumber seg = x" and "isInteger x"
  shows "getById (add products r) x = Inr r
       \<and> has_id x r = Inr True
       \<and> requestListener e products post =
           Inr (jsonResponse 201
                  (Obj [(js ''status'', Str (js ''Created'')),
                        (js ''message'', Str (js ''Product created successfully''))]),
                add products r)
       \<and> requestListener e (add products r) get =
           Inr (jsonResponse 200 (Obj [(js ''status'', Str (js ''OK'')), (js ''product'', r)]),
                add products r)"
proof -
  from assms(1,2) have none: "\<forall>p\<in>set products. has_id x p = Inr False"
    by (rule no_match_all_False)
  have "first_match x (products @ [r]) (length products)"
    using none assms(3) by (simp add: first_match_def nth_append)
  from find_js_first [OF this] have g: "getById (add products r) x = Inr r"
    by (simp add: getById_def add_def)
  from assms(3) obtain kvs where "r = Obj kvs" using has_id_Obj by blast
  then have t: "truthy r" by simp
  have p: "requestListener e products post =
           Inr (jsonResponse 201
                  (Obj [(js ''status'', Str (js ''Created'')),
                        (js ''message'', Str (js ''Product created successfully''))]),
                add products r)"
    by (simp add: requestListener_post [OF assms(4,5)] post_products_def assms(6))
  have q: "requestListener e (add products r) get =
           Inr (jsonResponse 200 (Obj [(js ''status'', Str (js ''OK'')), (js ''product'', r)]),
                add products r)"
    by (simp add: requestListener_item [OF assms(8)] assms(7,9,10) get_item_def g t)
  show ?thesis by (intro conjI, rule g, rule assms(3), rule p, rule q)
qed

theorem add_then_getById_witness:
  "list_all readable initial_products
   \<and> \<not> (\<exists>p\<in>set initial_products. has_id (Fin 2000) p = Inr True)
   \<and> has_id (Fin 2000) (product 2000 ''Hat'' ''X-1'' 1000) = Inr True
   \<and> split_on 0x2F (pathname (request_of ''GET'' ''/products/2000'' None))
       = [[], js ''products'', js ''2000'']
   \<and> StringToNumber (js ''2000'') = Fin 2000
   \<and> isInteger (Fin 2000)
   \<and> getById (add initial_products (product 2000 ''Hat'' ''X-1'' 1000)) (Fin 2000)
       = Inr (product 2000 ''Hat'' ''X-1'' 1000)
   \<and> requestListener example_env initial_products
         (request_of ''POST'' ''/products'' (Some (product 2000 ''Hat'' ''X-1'' 1000)))
       = Inr (jsonResponse 201
                (Obj [(js ''status'', Str (js ''Created'')),
                      (js ''message'', Str (js ''Product created successfully''))]),
              add initial_products (product 2000 ''Hat'' ''X-1'' 1000))
   \<and> requestListener example_env (add initial_products (product 2000 ''Hat'' ''X-1'' 1000))
         (request_of ''GET'' ''/products/2000'' None)
       = Inr (jsonResponse 200
                (Obj [(js ''status'', Str (js ''OK'')),
                      (js ''product'', product 2000 ''Hat'' ''X-1'' 1000)]),
              add initial_products (product 2000 ''Hat'' ''X-1'' 1000))"
proof -
  let ?r = "product 2000 ''Hat'' ''X-1'' 1000"
  let ?post = "request_of ''POST'' ''/products'' (Some ?r)"
  let ?get = "request_of ''GET'' ''/products/2000'' None"
  have n: "\<not> (\<exists>p\<in>set initial_products. has_id (Fin 2000) p = Inr True)"
    using has_id_product [of 2000 1001] has_id_product [of 2000 1002]
      has_id_product [of 2000 1003]
    by (simp add: initial_products_def)
  have h: "has_id (Fin 2000) ?r = Inr True"
    using has_id_product [of 2000 2000] by simp
  have pm: "req_method ?post = js ''POST''" and pp: "pathname ?post = js ''/products''"
    and pb: "json_body ?post = Some ?r"
    by (simp_all add: request_of_def)
  have gm: "req_method ?get = js ''GET''" by (simp add: request_of_def)
  have gs: "split_on 0x2F (pathname ?get) = [[], js ''products'', js ''2000'']"
    by (simp add: request_of_def js_def split_on_Cons del: split_on.simps(2))
  have sn: "StringToNumber (js ''2000'') = Fin 2000" by code_simp
  have ii: "isInteger (Fin 2000)" by simp
  note th = add_then_getById [OF initial_products_readable n h pm pp pb gm gs sn ii,
      of example_env]
  show ?thesis
    by (intro conjI, rule initial_products_readable, rule n, rule h, rule gs, rule sn, rule ii,
        rule conjunct1 [OF th], rule conjunct1 [OF conjunct2 [OF conjunct2 [OF th]]],
        rule conjunct2 [OF conjunct2 [OF conjunct2 [OF th]]])
qed

text \<open>
  C6. On a store of readable values in which exactly one record has the id: \<open>remove\<close>
  returns true, and \<open>getById\<close> on the store afterwards finds nothing. Over HTTP: DELETE
  \<open>/products/seg\<close>, for a segment that \<open>Number\<close> reads as that integer id, answers 200,
  and a following GET of the same path answers 404 with \<open>{status: "Not Found"}\<close>.
\<close>

theorem remove_then_getById:
  assumes "list_all readable products"
    and "length (filter (\<lambda>p. has_id i p = Inr True) products) = 1"
    and "req_method del = js ''DELETE''"
    and "split_on 0x2F (pathname del) = [a, js ''products'', seg]"
    and "req_method get = js ''GET''" and "pathname get = pathname del"
    and "StringToNumber seg = i" and "isInteger i"
  shows "\<exists>products'. remove_product products i = Inr (True, products')
           \<and> getById products' i = Inr Undefined
           \<and> requestListener e products del =
               Inr (jsonResponse 200 (Obj [(js ''status'', Str (js ''OK''))]), products')
           \<and> requestListener e products' get =
               Inr (jsonResponse 404 (Obj [(js ''status'', Str (js ''Not Found''))]), products')"
proof -
  from assms(2) have "filter (\<lambda>p. has_id i p = Inr True) products \<noteq> []" by auto
  then have "\<exists>p\<in>set products. has_id i p = Inr True" by (simp add: filter_empty_conv)
  with assms(1) obtain k where k: "first_match i products k"
    using ex_first_match by blast
  let ?ps = "take k products @ drop (Suc k) products"
  have r: "remove_product products i = Inr (True, ?ps)" by (rule remove_found [OF k])
  have none: "\<forall>p\<in>set ?ps. has_id i p = Inr False"
    by (rule single_match_rest [OF assms(1) k assms(2)])
  then have g: "getById ?ps i = Inr Undefined"
    by (simp add: getById_def find_js_none)
  have methods: "js ''DELETE'' \<noteq> js ''GET''" "js ''DELETE'' \<noteq> js ''PATCH''"
    using methods_distinct by simp_all
  have d: "requestListener e products del =
             Inr (jsonResponse 200 (Obj [(js ''status'', Str (js ''OK''))]), ?ps)"
    by (simp add: requestListener_item [OF assms(4)] assms(3,7,8) methods delete_item_def r)
  from assms(4,6) have gs: "split_on 0x2F (pathname get) = [a, js ''products'', seg]" by simp
  have q: "requestListener e ?ps get =
             Inr (jsonResponse 404 (Obj [(js ''status'', Str (js ''Not Found''))]), ?ps)"
    by (simp add: requestListener_item [OF gs] assms(5,7,8) get_item_def g)
  show ?thesis
    by (rule exI [of _ ?ps], intro conjI, rule r, rule g, rule d, rule q)
qed

theorem remove_then_getById_witness:
  "list_all readable initial_products
   \<and> length (filter (\<lambda>p. has_id (Fin 1001) p = Inr True) initial_products) = 1
   \<and> split_on 0x2F (pathname (request_of ''DELETE'' ''/products/1001'' None))
       = [[], js ''products'', js ''1001'']
   \<and> StringToNumber (js ''1001'') = Fin 1001
   \<and> isInteger (Fin 1001)
   \<and> (\<exists>products'. remove_product initial_products (Fin 1001) = Inr (True, products')
          \<and> getById products' (Fin 1001) = Inr Undefined
          \<and> requestListener example_env initial_products
                (request_of ''DELETE'' ''/products/1001'' None)
              = Inr (jsonResponse 200 (Obj [(js ''status'', Str (js ''OK''))]), products')
          \<and> requestListener example_env products' (request_of ''GET'' ''/products/1001'' None)
              = Inr (jsonResponse 404 (Obj [(js ''status'', Str (js ''Not Found''))]),
                     products'))"
proof -
  let ?del = "request_of ''DELETE'' ''/products/1001'' None"
  let ?get = "request_of ''GET'' ''/products/1001'' None"
  have one: "length (filter (\<lambda>p. has_id (Fin 1001) p = Inr True) initial_products) = 1"
    using has_id_product [of 1001 1001] has_id_product [of 1001 1002]
      has_id_product [of 1001 1003]
    by (simp add: initial_products_def)
  have dm: "req_method ?del = js ''DELETE''" and gm: "req_method ?get = js ''GET''"
    and same: "pathname ?get = pathname ?del"
    by (simp_all add: request_of_def)
  have ds: "split_on 0x2F (pathname ?del) = [[], js ''products'', js ''1001'']"
    by (simp add: request_of_def js_def split_on_Cons del: split_on.simps(2))
  have sn: "StringToNumber (js ''1001'') = Fin 1001" by code_simp
  have ii: "isInteger (Fin 1001)" by simp
  show ?thesis
    by (intro conjI, rule initial_products_readable, rule one, rule ds, rule sn, rule ii,
        rule remove_then_getById [OF initial_products_readable one dm ds gm same sn ii])
qed

end
